theory Spec2Isabelle
  imports Complex_Main "HOL-Library.Sublist" "HOL-Library.AList"
begin

section \<open>TokenWise backend: rate limiter, broadcast hub, monitor and batch sync\<close>

text \<open>
  A shallow embedding of the parts of the TokenWise backend that pace upstream calls
  (\<^verbatim>\<open>services/solanaService.ts\<close>), fan events out to WebSocket clients and watch wallets
  (\<^verbatim>\<open>server.ts\<close>), and walk a list of wallets in batches
  (\<^verbatim>\<open>services/transactionService.ts\<close>, \<^verbatim>\<open>controllers/walletController.ts\<close>).

  JavaScript runs one task at a time and a task is only interrupted at an \<^verbatim>\<open>await\<close>. The code
  modelled here awaits in sequence, so every function becomes a function from the state before
  to the state after. A thrown exception or a rejected promise is the \<open>Inl\<close> branch of a sum.
\<close>

subsection \<open>Errors\<close>

text \<open>
  A thrown value. The rate limiter reads \<^verbatim>\<open>error.message?.includes('429')\<close>, so the message may
  be absent.
\<close>

datatype error = Error (error_message: "string option")

text \<open>\<^verbatim>\<open>String.prototype.includes\<close>: the second string occurs as a contiguous part of the first.\<close>

fun str_includes :: "string \<Rightarrow> string \<Rightarrow> bool" where
  "str_includes [] sub = (sub = [])"
| "str_includes (c # cs) sub = (prefix sub (c # cs) \<or> str_includes cs sub)"

definition is_rate_limit :: "error \<Rightarrow> bool" where
  "is_rate_limit e = (case error_message e of None \<Rightarrow> False | Some m \<Rightarrow> str_includes m ''429'')"

subsection \<open>RateLimiter\<close>

text \<open>
  The limiter's own fields are \<open>queue\<close>, \<open>processing\<close> and \<open>lastRequestTime\<close>. The model adds
  the clock that \<^verbatim>\<open>Date.now()\<close> reads (milliseconds), a trace of what the limiter did (every
  \<^verbatim>\<open>sleep(ms)\<close> with the delay asked for, and every call of \<^verbatim>\<open>fn()\<close> with the time stored in
  \<open>lastRequestTime\<close> just before it), and in \<open>settlements\<close> what the promises returned by
  \<^verbatim>\<open>execute\<close> have settled with, in the order in which they settled.
\<close>

datatype event = Slept int | Dispatched int

text \<open>
  A submitted function \<^verbatim>\<open>fn\<close>: its \<open>k\<close>-th call (counting from 0) settles with a value or an
  error after some milliseconds.
\<close>

type_synonym 'a task = "nat \<Rightarrow> (error + 'a) \<times> nat"

record 'a rate_limiter =
  queue :: "'a task list"
  processing :: bool
  lastRequestTime :: int
  clock :: int
  trace :: "event list"
  settlements :: "(error + 'a) list"

definition minInterval :: int where
  "minInterval = 100"

definition maxRetries :: nat where
  "maxRetries = 3"

text \<open>
  \<^verbatim>\<open>sleep(ms)\<close> is a \<^verbatim>\<open>setTimeout\<close>: it resumes no earlier than \<open>ms\<close> later. How much later is
  given by \<open>late\<close>, a function of the time at which the timer was set.
\<close>

definition sleep :: "(int \<Rightarrow> nat) \<Rightarrow> int \<Rightarrow> 'a rate_limiter \<Rightarrow> 'a rate_limiter" where
  "sleep late ms st =
     st\<lparr>clock := clock st + ms + int (late (clock st)), trace := trace st @ [Slept ms]\<rparr>"

text \<open>
  The first half of \<^verbatim>\<open>executeWithRetry\<close>: wait until \<open>minInterval\<close> has passed since the
  last request; then store the time and call \<^verbatim>\<open>fn\<close>, which takes \<open>dur\<close> milliseconds.
\<close>

definition waitForInterval :: "(int \<Rightarrow> nat) \<Rightarrow> 'a rate_limiter \<Rightarrow> 'a rate_limiter" where
  "waitForInterval late st =
     (let now = clock st;
          timeSinceLastRequest = now - lastRequestTime st
      in if timeSinceLastRequest < minInterval
         then sleep late (minInterval - timeSinceLastRequest) st else st)"

definition dispatch :: "nat \<Rightarrow> 'a rate_limiter \<Rightarrow> 'a rate_limiter" where
  "dispatch dur st =
     st\<lparr>lastRequestTime := clock st,
        trace := trace st @ [Dispatched (clock st)],
        clock := clock st + int dur\<rparr>"

function executeWithRetry ::
  "(int \<Rightarrow> nat) \<Rightarrow> 'a task \<Rightarrow> nat \<Rightarrow> 'a rate_limiter \<Rightarrow> (error + 'a) \<times> 'a rate_limiter" where
  "executeWithRetry late fn retries st =
     (let st1 = dispatch (snd (fn retries)) (waitForInterval late st)
      in case fst (fn retries) of
           Inr result \<Rightarrow> (Inr result, st1)
         | Inl err \<Rightarrow>
             if is_rate_limit err \<and> retries < maxRetries
             then executeWithRetry late fn (retries + 1) (sleep late (2 ^ retries * 1000) st1)
             else (Inl err, st1))"
  by pat_completeness auto
termination
  by (relation "measure (\<lambda>(late, fn, retries, st). maxRetries - retries)") auto

text \<open>
  The \<^verbatim>\<open>while\<close> loop of \<^verbatim>\<open>processQueue\<close> over \<open>tasks\<close>, the queue when the loop starts: it
  takes the task at the front, awaits it and settles the promise of the caller with its
  result.
\<close>

fun drain :: "(int \<Rightarrow> nat) \<Rightarrow> 'a task list \<Rightarrow> 'a rate_limiter \<Rightarrow> 'a rate_limiter" where
  "drain late [] st = st"
| "drain late (task # rest) st =
     (let (result, st1) = executeWithRetry late task 0 (st\<lparr>queue := rest\<rparr>)
      in drain late rest (st1\<lparr>settlements := settlements st1 @ [result]\<rparr>))"

text \<open>
  \<^verbatim>\<open>processQueue\<close> does nothing while another loop is running. \<^verbatim>\<open>execute(fn)\<close> pushes the
  task and calls it: on a busy limiter the task waits in the queue for the loop that is
  running, which reaches it in turn.
\<close>

definition processQueue :: "(int \<Rightarrow> nat) \<Rightarrow> 'a rate_limiter \<Rightarrow> 'a rate_limiter" where
  "processQueue late st =
     (if processing st \<or> length (queue st) = 0 then st
      else (drain late (queue st) (st\<lparr>processing := True\<rparr>))\<lparr>processing := False\<rparr>)"

definition execute :: "(int \<Rightarrow> nat) \<Rightarrow> 'a task \<Rightarrow> 'a rate_limiter \<Rightarrow> 'a rate_limiter" where
  "execute late fn st = processQueue late (st\<lparr>queue := queue st @ [fn]\<rparr>)"

text \<open>What a trace says: the times of the calls, and the delays asked for after the first call.\<close>

fun dispatches :: "event list \<Rightarrow> int list" where
  "dispatches [] = []"
| "dispatches (Dispatched t # es) = t # dispatches es"
| "dispatches (Slept ms # es) = dispatches es"

fun delays :: "event list \<Rightarrow> int list" where
  "delays [] = []"
| "delays (Slept ms # es) = ms # delays es"
| "delays (Dispatched t # es) = delays es"


fun paced :: "int list \<Rightarrow> bool" where
  "paced (a # b # ts) = (minInterval \<le> b - a \<and> paced (b # ts))"
| "paced ts = True"



text \<open>
  What holds of a limiter between tasks: the calls made so far are paced, and
  \<open>lastRequestTime\<close> is the time of the latest one.
\<close>

definition pacing_inv :: "'a rate_limiter \<Rightarrow> bool" where
  "pacing_inv st = (paced (dispatches (trace st)) \<and>
     (dispatches (trace st) = [] \<or> last (dispatches (trace st)) = lastRequestTime st))"

text \<open>
  Sample inputs: a limiter that made its last request 50 ms ago, timers that fire on time, a
  call that is always answered 429, one that times out, and three calls of which the second
  is answered 429 once.
\<close>

definition idle_limiter :: "unit rate_limiter" where
  "idle_limiter =
     \<lparr>queue = [], processing = False, lastRequestTime = 950, clock = 1000, trace = [],
      settlements = []\<rparr>"

definition on_time :: "int \<Rightarrow> nat" where
  "on_time t = 0"

definition too_many_requests :: error where
  "too_many_requests = Error (Some ''429 Too Many Requests'')"

definition timed_out :: error where
  "timed_out = Error (Some ''socket hang up'')"



definition three_calls :: "unit task list" where
  "three_calls =
     [\<lambda>k. (Inr (), 5),
      \<lambda>k. (if k = 0 then Inl too_many_requests else Inr (), 5),
      \<lambda>k. (Inr (), 300)]"


subsection \<open>SolanaService: top token holders\<close>

record TokenHolderInfo =
  owner :: string
  amount :: int
  uiAmount :: rat
  decimals :: nat

text \<open>
  \<^verbatim>\<open>Math.random()\<close>: the \<open>k\<close>-th value drawn by a call, a number from 0 up to but not including
  1, taken as an exact fraction. \<open>random_below rnd k n\<close> is
  \<^verbatim>\<open>Math.floor(Math.random() * n)\<close> at the \<open>k\<close>-th draw.
\<close>

type_synonym rng = "nat \<Rightarrow> rat"

definition random_below :: "rng \<Rightarrow> nat \<Rightarrow> nat \<Rightarrow> nat" where
  "random_below rnd k n = nat \<lfloor>rnd k * of_nat n\<rfloor>"

definition chars :: string where
  "chars = ''ABCDEFGHJKMNPQRSTUVWXYZabcdefghjkmnpqrstuvwxyz123456789''"

text \<open>\<^verbatim>\<open>String.prototype.charAt\<close>: the empty string when the index is out of range.\<close>

definition charAt :: "string \<Rightarrow> nat \<Rightarrow> string" where
  "charAt s i = (if i < length s then [s ! i] else [])"

text \<open>The inner loop: \<open>n\<close> more characters appended, drawing from the \<open>k\<close>-th value on.\<close>

fun random_address :: "rng \<Rightarrow> nat \<Rightarrow> nat \<Rightarrow> string" where
  "random_address rnd k 0 = []"
| "random_address rnd k (Suc n) =
     charAt chars (random_below rnd k (length chars)) @ random_address rnd (Suc k) n"

text \<open>
  One pass of the outer loop of \<^verbatim>\<open>createSampleTokenHolders\<close>: the \<open>i\<close>-th holder uses 44
  draws for its address and one for its amount.
\<close>

definition sample_holder :: "rng \<Rightarrow> nat \<Rightarrow> TokenHolderInfo" where
  "sample_holder rnd i =
     (let address = random_address rnd (45 * i) 44;
          baseAmount = int (random_below rnd (45 * i + 44) 1000000000)
      in \<lparr>owner = address, amount = baseAmount,
          uiAmount = of_int baseAmount / 10 ^ 9, decimals = 9\<rparr>)"

text \<open>
  \<^verbatim>\<open>for (let i = 0; i < limit; i++)\<close> runs \<open>nat limit\<close> times, none when \<open>limit \<le> 0\<close>.
  \<^verbatim>\<open>sort((a, b) => b.amount - a.amount)\<close> is a stable sort by descending amount.
\<close>

definition createSampleTokenHolders :: "rng \<Rightarrow> int \<Rightarrow> TokenHolderInfo list" where
  "createSampleTokenHolders rnd limit =
     sort_key (\<lambda>h. - amount h) (map (sample_holder rnd) [0..<nat limit])"

text \<open>
  A fetch method as \<^verbatim>\<open>getTokenHoldersWithFallback\<close> sees it: what
  \<^verbatim>\<open>await this.rateLimiter.execute(method)\<close> settles with for a given limit. The loop returns
  the first non-empty result; a method that throws is logged and skipped.
\<close>

type_synonym fetch_method = "int \<Rightarrow> error + TokenHolderInfo list"

fun getTokenHoldersWithFallback :: "fetch_method list \<Rightarrow> int \<Rightarrow> TokenHolderInfo list" where
  "getTokenHoldersWithFallback [] limit = []"
| "getTokenHoldersWithFallback (method # methods) limit =
     (case method limit of
        Inr result \<Rightarrow>
          if length result > 0 then result else getTokenHoldersWithFallback methods limit
      | Inl err \<Rightarrow> getTokenHoldersWithFallback methods limit)"

text \<open>
  \<^verbatim>\<open>getTopTokenHolders\<close>. The three methods are \<^verbatim>\<open>getTokenHoldersViaTokenAccounts\<close>,
  \<^verbatim>\<open>getTokenHoldersViaLargestAccounts\<close> and \<^verbatim>\<open>getTokenHoldersViaProgramAccounts\<close>, in this order.
  \<open>thrown\<close> is an exception raised in the \<^verbatim>\<open>try\<close> block by something other than a fetch
  method (whose errors the fallback loop has caught); \<open>NODE_ENV\<close> is \<^verbatim>\<open>process.env.NODE_ENV\<close>.
\<close>

definition getTopTokenHolders ::
  "string option \<Rightarrow> error option \<Rightarrow> rng \<Rightarrow> fetch_method \<Rightarrow> fetch_method \<Rightarrow> fetch_method \<Rightarrow> int
     \<Rightarrow> error + TokenHolderInfo list" where
  "getTopTokenHolders NODE_ENV thrown rnd viaTokenAccounts viaLargestAccounts viaProgramAccounts limit =
     (case thrown of
        None \<Rightarrow>
          (let holders = getTokenHoldersWithFallback
                 [viaTokenAccounts, viaLargestAccounts, viaProgramAccounts] limit
           in if length holders = 0 then Inr (createSampleTokenHolders rnd limit)
              else Inr holders)
      | Some err \<Rightarrow>
          if NODE_ENV = Some ''development'' then Inr (createSampleTokenHolders rnd limit)
          else Inl err)"

text \<open>Sample inputs: a random source that always returns one half, and a ledger with no holders.\<close>

definition one_half :: rng where
  "one_half k = 1 / 2"

definition no_holders :: fetch_method where
  "no_holders limit = Inr []"

definition rpc_down :: fetch_method where
  "rpc_down limit = Inl timed_out"


subsection \<open>JSON values and WebSocket connections\<close>

text \<open>
  What \<^verbatim>\<open>JSON.parse\<close> returns, and what the server passes to \<^verbatim>\<open>JSON.stringify\<close>. An object is
  the list of its properties.
\<close>

datatype json =
  JNull | JBool bool | JNum rat | JStr string | JArr "json list" | JObj "(string \<times> json) list"

text \<open>
  \<^verbatim>\<open>data.key\<close>: a TypeError on \<^verbatim>\<open>null\<close>, and \<^verbatim>\<open>undefined\<close> (here \<open>None\<close>) when the value has
  no such property. The keys read below are properties of no string, number or array.
\<close>

fun get_property :: "json \<Rightarrow> string \<Rightarrow> error + json option" where
  "get_property JNull key = Inl (Error (Some ''Cannot read properties of null''))"
| "get_property (JObj properties) key = Inr (map_of properties key)"
| "get_property other key = Inr None"

text \<open>Truthiness, as \<^verbatim>\<open>!value\<close> and \<^verbatim>\<open>value || fallback\<close> read it.\<close>

fun truthy :: "json option \<Rightarrow> bool" where
  "truthy None = False"
| "truthy (Some JNull) = False"
| "truthy (Some (JBool b)) = b"
| "truthy (Some (JNum n)) = (n \<noteq> 0)"
| "truthy (Some (JStr str)) = (str \<noteq> [])"
| "truthy (Some other) = True"

text \<open>
  The conversion of a value to a string inside a template literal. \<open>num\<close> is the printing
  of a number. A parsed object has no function among its properties: when it has a
  property \<^verbatim>\<open>toString\<close> of its own, neither that nor \<^verbatim>\<open>valueOf\<close> gives a primitive value and
  the conversion throws a TypeError; otherwise it is \<^verbatim>\<open>[object Object]\<close>. An array is the
  \<^verbatim>\<open>join\<close> of its elements, with \<^verbatim>\<open>null\<close> as the empty string, and throws when an element
  does.
\<close>

fun template_string :: "(rat \<Rightarrow> string) \<Rightarrow> json \<Rightarrow> error + string"
  and join_elements :: "(rat \<Rightarrow> string) \<Rightarrow> json list \<Rightarrow> error + string" where
  "template_string num JNull = Inr ''null''"
| "template_string num (JBool b) = Inr (if b then ''true'' else ''false'')"
| "template_string num (JNum n) = Inr (num n)"
| "template_string num (JStr str) = Inr str"
| "template_string num (JArr elements) = join_elements num elements"
| "template_string num (JObj properties) =
     (case map_of properties ''toString'' of
        Some own \<Rightarrow> Inl (Error (Some ''Cannot convert object to primitive value''))
      | None \<Rightarrow> Inr ''[object Object]'')"
| "join_elements num [] = Inr []"
| "join_elements num (element # elements) =
     (case (if element = JNull then Inr [] else template_string num element) of
        Inl err \<Rightarrow> Inl err
      | Inr first \<Rightarrow>
          if elements = [] then Inr first
          else (case join_elements num elements of
                  Inl err \<Rightarrow> Inl err
                | Inr others \<Rightarrow> Inr (first @ '','' @ others)))"

text \<open>The same for a property that may be \<^verbatim>\<open>undefined\<close>.\<close>

definition String_of :: "(rat \<Rightarrow> string) \<Rightarrow> json option \<Rightarrow> error + string" where
  "String_of num v = (case v of None \<Rightarrow> Inr ''undefined'' | Some given \<Rightarrow> template_string num given)"

text \<open>
  A connected client. \<open>sendThrows\<close> says whether \<^verbatim>\<open>ws.send\<close> throws on this socket, and what.
\<close>

datatype ready_state = CONNECTING | OPEN | CLOSING | CLOSED

record socket =
  sock_id :: nat
  readyState :: ready_state
  sendThrows :: "error option"

datatype log_entry =
    Broadcasted nat
  | SentActivity json
  | ActivityRequestError error
  | SentRecent nat
  | RecentRequestError error
  | StartingMonitoring
  | NoWalletsFound
  | SubscribedToWallet string
  | SubscribeFailed string error
  | StartedMonitoring nat
  | StartMonitoringError error
  | StoppingMonitoring
  | UnsubscribedFromWallet string
  | UnsubscribeFailed string error
  | MonitoringStopped
  | StopMonitoringError error
  | AccountChangesSubscribed string
  | AccountChangesError string error
  | AccountChangesUnsubscribed nat
  | AccountChangesUnsubscribeError error
  | MessageReceived json
  | UnknownMessageType "json option"
  | MessageError error

text \<open>
  The state of the server process: the set \<open>wsConnections\<close> (in insertion order), the fields
  of the one \<^verbatim>\<open>RealTimeMonitor\<close> (\<open>subscriptions\<close> is a \<^verbatim>\<open>Map\<close>, in insertion order), the
  account-change listeners open on the ledger connection with the next identifier it hands
  out, every message sent (with the socket it went to) and the log.
\<close>

record server =
  wsConnections :: "socket list"
  subscriptions :: "(string \<times> nat) list"
  isMonitoring :: bool
  nextSubscriptionId :: nat
  accountListeners :: "(nat \<times> string) list"
  sent :: "(nat \<times> json) list"
  log :: "log_entry list"

text \<open>
  What the server consumes and does not define: the ledger client (\<open>rejects\<close> gives the error
  of \<^verbatim>\<open>new PublicKey(address)\<close> or \<^verbatim>\<open>onAccountChange\<close> for an address, \<open>removeFails\<close> that of
  \<^verbatim>\<open>removeAccountChangeListener\<close>), the store (the addresses \<^verbatim>\<open>getAllWallets\<close> returns, the
  transactions of the two queries with \<^verbatim>\<open>slot\<close> already turned into a string), the parser
  (\<open>None\<close> is a SyntaxError), the printing of a number, and the clock.
\<close>

record env =
  rejects :: "string \<Rightarrow> error option"
  removeFails :: "nat \<Rightarrow> error option"
  getAllWallets :: "error + string list"
  getTransactions :: "json \<Rightarrow> error + json list"
  getRecentTransactions :: "json \<Rightarrow> error + json list"
  JSON_parse :: "string \<Rightarrow> json option"
  numberToString :: "rat \<Rightarrow> string"
  toISOString :: string

definition logged :: "log_entry \<Rightarrow> server \<Rightarrow> server" where
  "logged entry s = s\<lparr>log := log s @ [entry]\<rparr>"

definition send :: "socket \<Rightarrow> json \<Rightarrow> server \<Rightarrow> (error + unit) \<times> server" where
  "send ws message s =
     (case sendThrows ws of
        Some err \<Rightarrow> (Inl err, s)
      | None \<Rightarrow> (Inr (), s\<lparr>sent := sent s @ [(sock_id ws, message)]\<rparr>))"

text \<open>\<^verbatim>\<open>catch (error) { logger.error(...); throw error; }\<close> around a block.\<close>

definition rethrow_logged ::
  "(error \<Rightarrow> log_entry) \<Rightarrow> (error + 'a) \<times> server \<Rightarrow> (error + 'a) \<times> server" where
  "rethrow_logged entry outcome =
     (case outcome of
        (Inl err, s) \<Rightarrow> (Inl err, logged (entry err) s)
      | (Inr result, s) \<Rightarrow> (Inr result, s))"

definition isOpen :: "socket \<Rightarrow> bool" where
  "isOpen ws = (readyState ws = OPEN)"

text \<open>The addresses of the \<^verbatim>\<open>Failed to subscribe to wallet\<close> lines of a log, in order.\<close>

definition failed_subscriptions :: "log_entry list \<Rightarrow> string list" where
  "failed_subscriptions entries =
     concat (map (\<lambda>entry. case entry of SubscribeFailed address err \<Rightarrow> [address] | _ \<Rightarrow> [])
               entries)"

subsection \<open>broadcastToClients\<close>

text \<open>
  \<^verbatim>\<open>wsConnections.forEach\<close> visits the sockets in insertion order; deleting the socket being
  visited does not disturb the iteration. A \<^verbatim>\<open>send\<close> that throws ends the loop and the
  function. The function returns nothing: \<open>clientCount\<close> goes to the log.
\<close>

fun forEach_send :: "json \<Rightarrow> socket list \<Rightarrow> nat \<Rightarrow> server \<Rightarrow> (error + nat) \<times> server" where
  "forEach_send messageStr [] clientCount s = (Inr clientCount, s)"
| "forEach_send messageStr (ws # rest) clientCount s =
     (if readyState ws = OPEN
      then (case send ws messageStr s of
              (Inl err, s1) \<Rightarrow> (Inl err, s1)
            | (Inr u, s1) \<Rightarrow> forEach_send messageStr rest (clientCount + 1) s1)
      else forEach_send messageStr rest clientCount
             (s\<lparr>wsConnections := removeAll ws (wsConnections s)\<rparr>))"

definition broadcastToClients :: "json \<Rightarrow> server \<Rightarrow> (error + unit) \<times> server" where
  "broadcastToClients message s =
     (case forEach_send message (wsConnections s) 0 s of
        (Inl err, s1) \<Rightarrow> (Inl err, s1)
      | (Inr clientCount, s1) \<Rightarrow> (Inr (), logged (Broadcasted clientCount) s1))"

subsection \<open>RealTimeMonitor\<close>

definition subscribeToAccountChanges :: "env \<Rightarrow> string \<Rightarrow> server \<Rightarrow> (error + nat) \<times> server" where
  "subscribeToAccountChanges env walletAddress s =
     (case rejects env walletAddress of
        Some err \<Rightarrow> (Inl err, logged (AccountChangesError walletAddress err) s)
      | None \<Rightarrow>
          (let subscriptionId = nextSubscriptionId s
           in (Inr subscriptionId,
               logged (AccountChangesSubscribed walletAddress)
                 (s\<lparr>nextSubscriptionId := Suc subscriptionId,
                    accountListeners := accountListeners s @ [(subscriptionId, walletAddress)]\<rparr>))))"

definition unsubscribeFromAccountChanges :: "env \<Rightarrow> nat \<Rightarrow> server \<Rightarrow> (error + unit) \<times> server" where
  "unsubscribeFromAccountChanges env subscriptionId s =
     (case removeFails env subscriptionId of
        Some err \<Rightarrow> (Inl err, logged (AccountChangesUnsubscribeError err) s)
      | None \<Rightarrow>
          (Inr (),
           logged (AccountChangesUnsubscribed subscriptionId)
             (s\<lparr>accountListeners :=
                  filter (\<lambda>l. fst l \<noteq> subscriptionId) (accountListeners s)\<rparr>)))"

text \<open>
  \<^verbatim>\<open>getStatus\<close>, and the same as the \<^verbatim>\<open>data\<close> of a reply. \<^verbatim>\<open>subscriptions.size\<close> is the
  length of the list, which holds one entry for each key.
\<close>

record status =
  status_isMonitoring :: bool
  walletsCount :: nat

definition getStatus :: "server \<Rightarrow> status" where
  "getStatus s = \<lparr>status_isMonitoring = isMonitoring s, walletsCount = length (subscriptions s)\<rparr>"

definition status_json :: "status \<Rightarrow> json" where
  "status_json st =
     JObj [(''isMonitoring'', JBool (status_isMonitoring st)),
           (''walletsCount'', JNum (of_nat (walletsCount st)))]"

text \<open>
  The loop of \<^verbatim>\<open>startMonitoring\<close> over the wallets: a subscription that fails is logged and
  the loop goes on; \<^verbatim>\<open>subscriptions.set\<close> replaces the entry of an address already present.
\<close>

fun subscribe_each :: "env \<Rightarrow> string list \<Rightarrow> nat \<Rightarrow> server \<Rightarrow> nat \<times> server" where
  "subscribe_each env [] subscriptionCount s = (subscriptionCount, s)"
| "subscribe_each env (address # wallets) subscriptionCount s =
     (case subscribeToAccountChanges env address s of
        (Inr subscriptionId, s1) \<Rightarrow>
          subscribe_each env wallets (subscriptionCount + 1)
            (logged (SubscribedToWallet address)
               (s1\<lparr>subscriptions := AList.update address subscriptionId (subscriptions s1)\<rparr>))
      | (Inl err, s1) \<Rightarrow>
          subscribe_each env wallets subscriptionCount (logged (SubscribeFailed address err) s1))"

definition monitoring_started :: "(string \<times> json) list \<Rightarrow> json" where
  "monitoring_started data = JObj [(''type'', JStr ''monitoring_started''), (''data'', JObj data)]"

definition startMonitoring :: "env \<Rightarrow> server \<Rightarrow> (error + unit) \<times> server" where
  "startMonitoring env s =
     (let s0 = logged StartingMonitoring s;
          attempt =
            (case getAllWallets env of
               Inl err \<Rightarrow> (Inl err, s0)
             | Inr wallets \<Rightarrow>
                 if length wallets = 0
                 then broadcastToClients
                        (monitoring_started
                           [(''walletsCount'', JNum 0),
                            (''message'',
                             JStr ''Monitoring started but no wallets found. Discover wallets first.'')])
                        ((logged NoWalletsFound s0)\<lparr>isMonitoring := True\<rparr>)
                 else (let (subscriptionCount, s1) = subscribe_each env wallets 0 s0;
                           s2 = logged (StartedMonitoring subscriptionCount) (s1\<lparr>isMonitoring := True\<rparr>)
                       in broadcastToClients
                            (monitoring_started
                               [(''walletsCount'', JNum (of_nat subscriptionCount)),
                                (''totalWallets'', JNum (of_nat (length wallets)))])
                            s2))
      in rethrow_logged StartMonitoringError attempt)"

fun unsubscribe_each :: "env \<Rightarrow> (string \<times> nat) list \<Rightarrow> server \<Rightarrow> server" where
  "unsubscribe_each env [] s = s"
| "unsubscribe_each env ((walletAddress, subscriptionId) # rest) s =
     (case unsubscribeFromAccountChanges env subscriptionId s of
        (Inr u, s1) \<Rightarrow> unsubscribe_each env rest (logged (UnsubscribedFromWallet walletAddress) s1)
      | (Inl err, s1) \<Rightarrow>
          unsubscribe_each env rest (logged (UnsubscribeFailed walletAddress err) s1))"

definition stopMonitoring :: "env \<Rightarrow> server \<Rightarrow> (error + unit) \<times> server" where
  "stopMonitoring env s =
     (let s0 = logged StoppingMonitoring s;
          s1 = unsubscribe_each env (subscriptions s0) s0;
          s2 = logged MonitoringStopped (s1\<lparr>subscriptions := [], isMonitoring := False\<rparr>)
      in rethrow_logged StopMonitoringError
           (broadcastToClients
              (JObj [(''type'', JStr ''monitoring_stopped''), (''data'', JObj [])]) s2))"

text \<open>
  Sample inputs: three kinds of client, a server that has just started with the given clients
  connected, ten wallet addresses, an environment whose store holds the given wallets and
  whose ledger client refuses the addresses listed, and an event.
\<close>

definition client :: "nat \<Rightarrow> socket" where
  "client i = \<lparr>sock_id = i, readyState = OPEN, sendThrows = None\<rparr>"

definition closed_client :: "nat \<Rightarrow> socket" where
  "closed_client i = \<lparr>sock_id = i, readyState = CLOSED, sendThrows = None\<rparr>"

definition broken_client :: "nat \<Rightarrow> socket" where
  "broken_client i = \<lparr>sock_id = i, readyState = OPEN, sendThrows = Some (Error (Some ''write EPIPE''))\<rparr>"

definition server_with :: "socket list \<Rightarrow> server" where
  "server_with clients =
     \<lparr>wsConnections = clients, subscriptions = [], isMonitoring = False, nextSubscriptionId = 0,
      accountListeners = [], sent = [], log = []\<rparr>"

definition ten_wallets :: "string list" where
  "ten_wallets = [''w0'', ''w1'', ''w2'', ''w3'', ''w4'', ''w5'', ''w6'', ''w7'', ''w8'', ''w9'']"

definition env_with :: "string list \<Rightarrow> string list \<Rightarrow> env" where
  "env_with wallets invalid =
     \<lparr>rejects = (\<lambda>a. if a \<in> set invalid then Some (Error (Some ''Invalid public key input'')) else None),
      removeFails = (\<lambda>i. None),
      getAllWallets = Inr wallets,
      getTransactions = (\<lambda>a. Inr []),
      getRecentTransactions = (\<lambda>l. Inr []),
      JSON_parse = (\<lambda>m. None),
      numberToString = (\<lambda>n. ''0''),
      toISOString = ''2025-01-01T00:00:00.000Z''\<rparr>"

definition event_message :: json where
  "event_message = JObj [(''type'', JStr ''sync_completed'')]"

subsection \<open>Batch sync\<close>

text \<open>
  \<^verbatim>\<open>transactionService.syncWalletTransactions(address, limit)\<close> as its callers see it: the
  number of transactions processed, or the error it throws. The syncs of one batch run
  interleaved; what each of them settles with is what this function gives.
\<close>

type_synonym sync_fn = "string \<Rightarrow> int \<Rightarrow> error + nat"

text \<open>
  \<^verbatim>\<open>Array.prototype.slice(start, stop)\<close> on whole numbers: a negative index counts from the
  end, and both are clamped to the array.
\<close>

definition slice :: "'a list \<Rightarrow> int \<Rightarrow> int \<Rightarrow> 'a list" where
  "slice xs start stop =
     (let len = int (length xs);
          k = (if start < 0 then max (len + start) 0 else min start len);
          final = (if stop < 0 then max (len + stop) 0 else min stop len)
      in take (nat (final - k)) (drop (nat k) xs))"

datatype 'a settled = Fulfilled 'a | Rejected error

definition allSettled :: "(error + 'a) list \<Rightarrow> 'a settled list" where
  "allSettled promises =
     map (\<lambda>promise. case promise of Inr v \<Rightarrow> Fulfilled v | Inl err \<Rightarrow> Rejected err) promises"

record sync_outcome =
  success :: bool
  address :: string

text \<open>
  The function mapped over a batch: it catches the error of the wallet's sync, so its
  promise is always fulfilled. (\<^verbatim>\<open>performBulkSync\<close> also stores the error in the outcome,
  and reads it nowhere.)
\<close>

definition sync_wallet :: "sync_fn \<Rightarrow> int \<Rightarrow> string \<Rightarrow> error + sync_outcome" where
  "sync_wallet sync limit wallet =
     (case sync wallet limit of
        Inr processed \<Rightarrow> Inr \<lparr>success = True, address = wallet\<rparr>
      | Inl err \<Rightarrow> Inr \<lparr>success = False, address = wallet\<rparr>)"

text \<open>
  The state of a run: the two counters, and what the run did, in order: the batches it
  started, the pauses between batches and the progress lines it logged.
\<close>

datatype sync_event = BatchStarted "string list" | Paused nat | Progress int nat

record sync_run =
  successCount :: nat
  failedCount :: nat
  events :: "sync_event list"

text \<open>
  \<^verbatim>\<open>results.forEach\<close>: a fulfilled result with \<^verbatim>\<open>success\<close> counts as a success, anything else
  as a failure (the two functions write this test in two equivalent ways).
\<close>

fun count_results :: "sync_outcome settled list \<Rightarrow> sync_run \<Rightarrow> sync_run" where
  "count_results [] run = run"
| "count_results (Fulfilled v # results) run =
     (if success v
      then count_results results (run\<lparr>successCount := successCount run + 1\<rparr>)
      else count_results results (run\<lparr>failedCount := failedCount run + 1\<rparr>))"
| "count_results (Rejected err # results) run =
     count_results results (run\<lparr>failedCount := failedCount run + 1\<rparr>)"

text \<open>
  The loop of \<^verbatim>\<open>syncAllWalletTransactions\<close>, from index \<open>i\<close> on: batches of
  \<^verbatim>\<open>batchSize = 5\<close>, each wallet synced with limit 5, a pause of 2000 ms after every batch
  but the last.
\<close>

function sync_batches :: "sync_fn \<Rightarrow> string list \<Rightarrow> int \<Rightarrow> sync_run \<Rightarrow> sync_run" where
  "sync_batches sync wallets i run =
     (if i < int (length wallets)
      then (let batch = slice wallets i (i + 5);
                batchPromises = map (sync_wallet sync 5) batch;
                results = allSettled batchPromises;
                run1 = count_results results (run\<lparr>events := events run @ [BatchStarted batch]\<rparr>);
                run2 = (if i + 5 < int (length wallets)
                        then run1\<lparr>events := events run1 @ [Paused 2000]\<rparr> else run1)
            in sync_batches sync wallets (i + 5) run2)
      else run)"
  by pat_completeness auto
termination
  by (relation "measure (\<lambda>(sync, wallets, i, run). nat (int (length wallets) - i))") auto

text \<open>
  \<^verbatim>\<open>syncAllWalletTransactions\<close>: \<open>findMany\<close> is what the query for the active wallets settles
  with. An error of the query is logged and thrown again; the value returned is
  \<^verbatim>\<open>{ success: successCount, failed: failedCount }\<close>.
\<close>

definition syncAllWalletTransactions :: "sync_fn \<Rightarrow> error + string list \<Rightarrow> error + sync_run" where
  "syncAllWalletTransactions sync findMany =
     (case findMany of
        Inl err \<Rightarrow> Inl err
      | Inr wallets \<Rightarrow>
          Inr (sync_batches sync wallets 0 \<lparr>successCount = 0, failedCount = 0, events = []\<rparr>))"

text \<open>
  The loop of \<^verbatim>\<open>performBulkSync\<close>. Its \<open>batchSize\<close> comes from the request body, and with
  \<open>batchSize \<le> 0\<close> the index never reaches the end of the list: the loop is given fuel, one
  unit for each pass, and \<open>None\<close> means that it is still running when the fuel is spent.
\<close>

fun bulk_batches ::
  "nat \<Rightarrow> sync_fn \<Rightarrow> string list \<Rightarrow> int \<Rightarrow> int \<Rightarrow> int \<Rightarrow> sync_run \<Rightarrow> sync_run option" where
  "bulk_batches fuel sync walletAddresses transactionsPerWallet batchSize i run =
     (if i < int (length walletAddresses)
      then (case fuel of
              0 \<Rightarrow> None
            | Suc fuel' \<Rightarrow>
                (let batch = slice walletAddresses i (i + batchSize);
                     batchPromises = map (sync_wallet sync transactionsPerWallet) batch;
                     results = allSettled batchPromises;
                     run1 = count_results results
                              (run\<lparr>events := events run @ [BatchStarted batch]\<rparr>);
                     run2 = (if i + batchSize < int (length walletAddresses)
                             then run1\<lparr>events := events run1 @ [Paused 2000]\<rparr> else run1);
                     run3 = run2\<lparr>events := events run2 @
                               [Progress (i + int (length batch)) (length walletAddresses)]\<rparr>
                 in bulk_batches fuel' sync walletAddresses transactionsPerWallet batchSize
                      (i + batchSize) run3))
      else Some run)"

text \<open>
  \<^verbatim>\<open>performBulkSync(syncId, walletAddresses, transactionsPerWallet, batchSize)\<close>. These four
  are all it reads: there is no cancellation token or flag. It returns nothing; the two
  counters go to the log.
\<close>

definition performBulkSync ::
  "nat \<Rightarrow> sync_fn \<Rightarrow> string \<Rightarrow> string list \<Rightarrow> int \<Rightarrow> int \<Rightarrow> sync_run option" where
  "performBulkSync fuel sync syncId walletAddresses transactionsPerWallet batchSize =
     bulk_batches fuel sync walletAddresses transactionsPerWallet batchSize 0
       \<lparr>successCount = 0, failedCount = 0, events = []\<rparr>"

text \<open>The batches a run started, in order.\<close>

definition batches :: "sync_event list \<Rightarrow> string list list" where
  "batches evs = concat (map (\<lambda>ev. case ev of BatchStarted batch \<Rightarrow> [batch] | _ \<Rightarrow> []) evs)"

text \<open>
  What a run from \<open>run\<close> to \<open>run'\<close> over the wallets \<open>todo\<close> has to satisfy: each wallet
  counted once, on the side its sync decides, and started in a batch.
\<close>

definition accounted :: "sync_fn \<Rightarrow> int \<Rightarrow> string list \<Rightarrow> sync_run \<Rightarrow> sync_run \<Rightarrow> bool" where
  "accounted sync limit todo run run' =
     (successCount run' = successCount run + length (filter (\<lambda>a. \<not> isl (sync a limit)) todo) \<and>
      failedCount run' = failedCount run + length (filter (\<lambda>a. isl (sync a limit)) todo) \<and>
      concat (batches (events run')) = concat (batches (events run)) @ todo)"

text \<open>Sample input: a sync that fails for the wallets \<open>w3\<close> and \<open>w7\<close>.\<close>

definition flaky_sync :: sync_fn where
  "flaky_sync wallet limit =
     (if wallet = ''w3'' \<or> wallet = ''w7'' then Inl timed_out else Inr (nat limit))"

subsection \<open>The message handler of a connection\<close>

text \<open>
  How a call of the handler ends: it returns, an exception leaves it, or a promise that
  nobody awaits is rejected.
\<close>

datatype outcome = Returned | Uncaught error | UnhandledRejection error

definition unawaited :: "(error + unit) \<times> server \<Rightarrow> (error + outcome) \<times> server" where
  "unawaited promise =
     (case promise of
        (Inl err, s) \<Rightarrow> (Inr (UnhandledRejection err), s)
      | (Inr u, s) \<Rightarrow> (Inr Returned, s))"

definition completed :: "(error + unit) \<times> server \<Rightarrow> (error + outcome) \<times> server" where
  "completed step =
     (case step of
        (Inl err, s) \<Rightarrow> (Inl err, s)
      | (Inr u, s) \<Rightarrow> (Inr Returned, s))"

text \<open>\<^verbatim>\<open>try { ... } catch (error) { handler }\<close> around a block.\<close>

definition catch_with ::
  "(error \<Rightarrow> server \<Rightarrow> (error + 'a) \<times> server) \<Rightarrow> (error + 'a) \<times> server \<Rightarrow> (error + 'a) \<times> server" where
  "catch_with handler block =
     (case block of
        (Inl err, s) \<Rightarrow> handler err s
      | (Inr result, s) \<Rightarrow> (Inr result, s))"

definition error_reply :: "env \<Rightarrow> string \<Rightarrow> json" where
  "error_reply env text =
     JObj [(''type'', JStr ''error''), (''message'', JStr text),
           (''timestamp'', JStr (toISOString env))]"

text \<open>
  The reply of the \<^verbatim>\<open>.catch\<close> of start and stop: \<^verbatim>\<open>error: error.message\<close> is left out by
  \<^verbatim>\<open>JSON.stringify\<close> when the message is undefined.
\<close>

definition failure_reply :: "env \<Rightarrow> string \<Rightarrow> error \<Rightarrow> json" where
  "failure_reply env text err =
     JObj ([(''type'', JStr ''error''), (''message'', JStr text)] @
           (case error_message err of None \<Rightarrow> [] | Some m \<Rightarrow> [(''error'', JStr m)]) @
           [(''timestamp'', JStr (toISOString env))])"

definition status_reply :: "env \<Rightarrow> string \<Rightarrow> server \<Rightarrow> json" where
  "status_reply env type s =
     JObj [(''type'', JStr type), (''data'', status_json (getStatus s)),
           (''timestamp'', JStr (toISOString env))]"

definition handleActivityRequest :: "env \<Rightarrow> socket \<Rightarrow> json \<Rightarrow> server \<Rightarrow> (error + unit) \<times> server" where
  "handleActivityRequest env ws data s =
     catch_with
       (\<lambda>err s1. send ws (error_reply env ''Failed to fetch wallet activity'')
                   (logged (ActivityRequestError err) s1))
       (case get_property data ''walletAddress'' of
          Inl err \<Rightarrow> (Inl err, s)
        | Inr None \<Rightarrow>
            send ws (error_reply env ''walletAddress is required for activity request'') s
        | Inr (Some walletAddress) \<Rightarrow>
            if \<not> truthy (Some walletAddress)
            then send ws (error_reply env ''walletAddress is required for activity request'') s
            else (case getTransactions env walletAddress of
                    Inl err \<Rightarrow> (Inl err, s)
                  | Inr serializedTransactions \<Rightarrow>
                      (case send ws
                              (JObj [(''type'', JStr ''wallet_activity''),
                                     (''data'', JObj [(''walletAddress'', walletAddress),
                                                      (''transactions'', JArr serializedTransactions)]),
                                     (''timestamp'', JStr (toISOString env))]) s of
                         (Inl err, s1) \<Rightarrow> (Inl err, s1)
                       | (Inr u, s1) \<Rightarrow>
                           (case template_string (numberToString env) walletAddress of
                              Inl err \<Rightarrow> (Inl err, s1)
                            | Inr shown \<Rightarrow> (Inr u, logged (SentActivity walletAddress) s1)))))"

definition handleRecentTransactionsRequest ::
  "env \<Rightarrow> socket \<Rightarrow> json \<Rightarrow> server \<Rightarrow> (error + unit) \<times> server" where
  "handleRecentTransactionsRequest env ws data s =
     catch_with
       (\<lambda>err s1. send ws (error_reply env ''Failed to fetch recent transactions'')
                   (logged (RecentRequestError err) s1))
       (case get_property data ''limit'' of
          Inl err \<Rightarrow> (Inl err, s)
        | Inr given \<Rightarrow>
            (let limit = (case given of
                            None \<Rightarrow> JNum 20
                          | Some v \<Rightarrow> if truthy (Some v) then v else JNum 20)
             in case getRecentTransactions env limit of
                  Inl err \<Rightarrow> (Inl err, s)
                | Inr serializedTransactions \<Rightarrow>
                    (case send ws
                            (JObj [(''type'', JStr ''recent_transactions''),
                                   (''data'',
                                    JObj [(''transactions'', JArr serializedTransactions),
                                          (''count'', JNum (of_nat (length serializedTransactions)))]),
                                   (''timestamp'', JStr (toISOString env))]) s of
                       (Inl err, s1) \<Rightarrow> (Inl err, s1)
                     | (Inr u, s1) \<Rightarrow>
                         (Inr u, logged (SentRecent (length serializedTransactions)) s1))))"

text \<open>
  \<^verbatim>\<open>promise.then(() => ws.send(reply)).catch((error) => ws.send(failure))\<close>: the \<^verbatim>\<open>catch\<close>
  also receives what the \<^verbatim>\<open>then\<close> throws.
\<close>

definition then_reply_catch ::
  "env \<Rightarrow> socket \<Rightarrow> string \<Rightarrow> string \<Rightarrow> (error + unit) \<times> server \<Rightarrow> (error + unit) \<times> server" where
  "then_reply_catch env ws type text promise =
     catch_with (\<lambda>err s1. send ws (failure_reply env text err) s1)
       (case promise of
          (Inl err, s1) \<Rightarrow> (Inl err, s1)
        | (Inr u, s1) \<Rightarrow> send ws (status_reply env type s1) s1)"

definition supported_types :: string where
  "supported_types =
     ''ping, subscribe, request_activity, get_recent_transactions, get_status, start_monitoring, stop_monitoring''"

text \<open>The labels of the \<^verbatim>\<open>switch\<close>.\<close>

definition handled_types :: "string list" where
  "handled_types =
     [''ping'', ''subscribe'', ''request_activity'', ''get_recent_transactions'', ''get_status'',
      ''start_monitoring'', ''stop_monitoring'']"

text \<open>
  \<^verbatim>\<open>ws.on('message', ...)\<close>. The \<^verbatim>\<open>switch\<close> compares \<^verbatim>\<open>data.type\<close> with each label by
  \<^verbatim>\<open>===\<close>; the two request handlers and the two promise chains are not awaited, so what they
  throw does not reach the \<^verbatim>\<open>catch\<close> of the handler. In the default branch the template
  literal converts \<^verbatim>\<open>data.type\<close> to a string before anything is sent, and a TypeError of
  that conversion goes to the \<^verbatim>\<open>catch\<close>.
\<close>

definition onMessage :: "env \<Rightarrow> socket \<Rightarrow> string \<Rightarrow> server \<Rightarrow> outcome \<times> server" where
  "onMessage env ws message s =
     (case catch_with
             (\<lambda>err s1. completed
                (send ws (error_reply env ''Invalid message format. Please send valid JSON.'')
                   (logged (MessageError err) s1)))
             (case JSON_parse env message of
                None \<Rightarrow> (Inl (Error (Some ''Unexpected token in JSON'')), s)
              | Some data \<Rightarrow>
                  (let s0 = logged (MessageReceived data) s
                   in case get_property data ''type'' of
                        Inl err \<Rightarrow> (Inl err, s0)
                      | Inr type \<Rightarrow>
                          if type = Some (JStr ''ping'')
                          then completed
                                 (send ws (JObj [(''type'', JStr ''pong''),
                                                 (''timestamp'', JStr (toISOString env))]) s0)
                          else if type = Some (JStr ''subscribe'')
                          then completed (send ws (status_reply env ''subscribed'' s0) s0)
                          else if type = Some (JStr ''request_activity'')
                          then unawaited (handleActivityRequest env ws data s0)
                          else if type = Some (JStr ''get_recent_transactions'')
                          then unawaited (handleRecentTransactionsRequest env ws data s0)
                          else if type = Some (JStr ''get_status'')
                          then completed (send ws (status_reply env ''status_update'' s0) s0)
                          else if type = Some (JStr ''start_monitoring'')
                          then unawaited
                                 (then_reply_catch env ws ''monitoring_started''
                                    ''Failed to start monitoring'' (startMonitoring env s0))
                          else if type = Some (JStr ''stop_monitoring'')
                          then unawaited
                                 (then_reply_catch env ws ''monitoring_stopped''
                                    ''Failed to stop monitoring'' (stopMonitoring env s0))
                          else (case String_of (numberToString env) type of
                                  Inl err \<Rightarrow> (Inl err, logged (UnknownMessageType type) s0)
                                | Inr shown \<Rightarrow>
                                    completed
                                      (send ws
                                         (error_reply env
                                            (''Unknown message type: '' @ shown @
                                             ''. Supported types: '' @ supported_types))
                                         (logged (UnknownMessageType type) s0))))) of
        (Inl err, s1) \<Rightarrow> (Uncaught err, s1)
      | (Inr result, s1) \<Rightarrow> (result, s1))"

text \<open>Sample input: an environment whose parser knows four messages.\<close>

definition protocol_env :: env where
  \<open>protocol_env =
     (env_with [] [])
       \<lparr>JSON_parse := (\<lambda>m. if m = ''{"type":"ping"}'' then Some (JObj [(''type'', JStr ''ping'')])
                            else if m = ''{"type":"bogus"}'' then Some (JObj [(''type'', JStr ''bogus'')])
                            else if m = ''{"type":{"toString":1}}''
                            then Some (JObj [(''type'', JObj [(''toString'', JNum 1)])])
                            else if m = ''null'' then Some JNull
                            else None)\<rparr>\<close>

section \<open>Properties\<close>

subsection \<open>RateLimiter: pacing and backoff\<close>

declare executeWithRetry.simps [simp del]

lemma dispatches_append: "dispatches (xs @ ys) = dispatches xs @ dispatches ys"
  by (induction xs rule: dispatches.induct) auto

lemma delays_append: "delays (xs @ ys) = delays xs @ delays ys"
  by (induction xs rule: delays.induct) auto

lemma paced_snoc: "paced ts \<Longrightarrow> ts = [] \<or> minInterval \<le> t - last ts \<Longrightarrow> paced (ts @ [t])"
  by (induction ts rule: paced.induct) auto

lemma sleep_inv: "pacing_inv st \<Longrightarrow> pacing_inv (sleep late ms st)"
  by (simp add: pacing_inv_def sleep_def dispatches_append)

lemma wait_clock: "lastRequestTime st + minInterval \<le> clock (waitForInterval late st)"
  by (simp add: waitForInterval_def sleep_def Let_def)

lemma wait_inv: "pacing_inv st \<Longrightarrow> pacing_inv (waitForInterval late st)"
  by (simp add: waitForInterval_def Let_def sleep_inv)

lemma wait_last: "lastRequestTime (waitForInterval late st) = lastRequestTime st"
  by (simp add: waitForInterval_def Let_def sleep_def)

lemma attempt_inv:
  assumes "pacing_inv st"
  shows "pacing_inv (dispatch dur (waitForInterval late st))"
proof -
  let ?w = "waitForInterval late st"
  have w: "pacing_inv ?w" using assms by (rule wait_inv)
  have c: "lastRequestTime ?w + minInterval \<le> clock ?w"
    using wait_clock [of st late] by (simp add: wait_last)
  have "paced (dispatches (trace ?w) @ [clock ?w])"
  proof (rule paced_snoc)
    show "paced (dispatches (trace ?w))" using w by (simp add: pacing_inv_def)
    show "dispatches (trace ?w) = [] \<or> minInterval \<le> clock ?w - last (dispatches (trace ?w))"
      using w c by (auto simp: pacing_inv_def)
  qed
  then show ?thesis by (simp add: pacing_inv_def dispatch_def dispatches_append)
qed

lemma executeWithRetry_unfold:
  "executeWithRetry late fn retries st =
     (case fst (fn retries) of
        Inr result \<Rightarrow> (Inr result, dispatch (snd (fn retries)) (waitForInterval late st))
      | Inl err \<Rightarrow>
          if is_rate_limit err \<and> retries < maxRetries
          then executeWithRetry late fn (retries + 1)
                 (sleep late (2 ^ retries * 1000) (dispatch (snd (fn retries)) (waitForInterval late st)))
          else (Inl err, dispatch (snd (fn retries)) (waitForInterval late st)))"
  by (simp add: executeWithRetry.simps [of late fn retries st] Let_def)

lemma executeWithRetry_inv:
  "pacing_inv st \<Longrightarrow> pacing_inv (snd (executeWithRetry late fn retries st))"
proof (induction late fn retries st rule: executeWithRetry.induct)
  case (1 late fn retries st)
  let ?st1 = "dispatch (snd (fn retries)) (waitForInterval late st)"
  have a: "pacing_inv ?st1" using "1.prems" by (rule attempt_inv)
  show ?case
  proof (cases "fst (fn retries)")
    case (Inr v)
    then show ?thesis using a by (simp add: executeWithRetry_unfold [of late fn retries st])
  next
    case (Inl err)
    show ?thesis
    proof (cases "is_rate_limit err \<and> retries < maxRetries")
      case True
      have "pacing_inv (snd (executeWithRetry late fn (retries + 1) (sleep late (2 ^ retries * 1000) ?st1)))"
        using "1.IH" [OF refl Inl True] a sleep_inv by blast
      then show ?thesis using Inl True by (simp add: executeWithRetry_unfold [of late fn retries st])
    next
      case False
      then show ?thesis using Inl a by (auto simp add: executeWithRetry_unfold [of late fn retries st])
    qed
  qed
qed

lemma executeWithRetry_fields:
  "queue (snd (executeWithRetry late fn retries st)) = queue st \<and>
   settlements (snd (executeWithRetry late fn retries st)) = settlements st \<and>
   processing (snd (executeWithRetry late fn retries st)) = processing st"
proof (induction late fn retries st rule: executeWithRetry.induct)
  case (1 late fn retries st)
  let ?st1 = "dispatch (snd (fn retries)) (waitForInterval late st)"
  have a: "queue ?st1 = queue st \<and> settlements ?st1 = settlements st \<and> processing ?st1 = processing st"
    by (simp add: dispatch_def waitForInterval_def Let_def sleep_def)
  show ?case
  proof (cases "fst (fn retries)")
    case (Inr v)
    then show ?thesis using a by (simp add: executeWithRetry_unfold [of late fn retries st])
  next
    case (Inl err)
    show ?thesis
    proof (cases "is_rate_limit err \<and> retries < maxRetries")
      case True
      then show ?thesis
        using "1.IH" [OF refl Inl True] a Inl
        by (simp add: executeWithRetry_unfold [of late fn retries st] sleep_def)
    next
      case False
      then show ?thesis using Inl a by (auto simp add: executeWithRetry_unfold [of late fn retries st])
    qed
  qed
qed

lemma pacing_inv_fields:
  "pacing_inv (st\<lparr>queue := q\<rparr>) = pacing_inv st"
  "pacing_inv (st\<lparr>settlements := r\<rparr>) = pacing_inv st"
  "pacing_inv (st\<lparr>processing := b\<rparr>) = pacing_inv st"
  by (simp_all add: pacing_inv_def)

lemma drain_inv: "pacing_inv st \<Longrightarrow> pacing_inv (drain late tasks st)"
proof (induction tasks arbitrary: st)
  case Nil
  then show ?case by simp
next
  case (Cons task rest)
  obtain r st1 where e: "executeWithRetry late task 0 (st\<lparr>queue := rest\<rparr>) = (r, st1)"
    by (cases "executeWithRetry late task 0 (st\<lparr>queue := rest\<rparr>)")
  have "pacing_inv (st\<lparr>queue := rest\<rparr>)" using Cons.prems by (simp add: pacing_inv_fields)
  then have "pacing_inv st1" using executeWithRetry_inv [of "st\<lparr>queue := rest\<rparr>" late task 0] e by simp
  then have "pacing_inv (drain late rest (st1\<lparr>settlements := settlements st1 @ [r]\<rparr>))"
    by (intro Cons.IH) (simp add: pacing_inv_fields)
  then show ?case using e by simp
qed

lemma execute_inv: "pacing_inv st \<Longrightarrow> pacing_inv (execute late fn st)"
  by (simp add: execute_def processQueue_def pacing_inv_fields drain_inv)

lemma drain_results:
  "length (settlements (drain late tasks st)) = length (settlements st) + length tasks \<and>
   queue (drain late tasks st) = (if tasks = [] then queue st else []) \<and>
   processing (drain late tasks st) = processing st"
proof (induction tasks arbitrary: st)
  case Nil
  then show ?case by simp
next
  case (Cons task rest)
  obtain r st1 where e: "executeWithRetry late task 0 (st\<lparr>queue := rest\<rparr>) = (r, st1)"
    by (cases "executeWithRetry late task 0 (st\<lparr>queue := rest\<rparr>)")
  have f: "queue st1 = rest \<and> settlements st1 = settlements st \<and> processing st1 = processing st"
    using executeWithRetry_fields [of late task 0 "st\<lparr>queue := rest\<rparr>"] e by simp
  show ?case
    using Cons.IH [of "st1\<lparr>settlements := settlements st1 @ [r]\<rparr>"] e f by simp
qed

lemma paced_nth: "paced ts \<Longrightarrow> Suc i < length ts \<Longrightarrow> minInterval \<le> ts ! Suc i - ts ! i"
proof (induction ts arbitrary: i rule: paced.induct)
  case (1 a b ts)
  then show ?case by (cases i) auto
qed auto

lemma executeWithRetry_dispatches:
  "length (dispatches (trace st)) < length (dispatches (trace (snd (executeWithRetry late fn retries st))))"
proof (induction late fn retries st rule: executeWithRetry.induct)
  case (1 late fn retries st)
  let ?st1 = "dispatch (snd (fn retries)) (waitForInterval late st)"
  have a: "length (dispatches (trace st)) < length (dispatches (trace ?st1))"
    by (simp add: dispatch_def waitForInterval_def Let_def sleep_def dispatches_append)
  show ?case
  proof (cases "fst (fn retries)")
    case (Inr v)
    then show ?thesis using a by (simp add: executeWithRetry_unfold [of late fn retries st])
  next
    case (Inl err)
    show ?thesis
    proof (cases "is_rate_limit err \<and> retries < maxRetries")
      case True
      have "length (dispatches (trace (sleep late (2 ^ retries * 1000) ?st1)))
          < length (dispatches (trace (snd (executeWithRetry late fn (retries + 1) (sleep late (2 ^ retries * 1000) ?st1)))))"
        using "1.IH" [OF refl Inl True] .
      moreover have "length (dispatches (trace (sleep late (2 ^ retries * 1000) ?st1))) = length (dispatches (trace ?st1))"
        by (simp add: sleep_def dispatches_append)
      ultimately show ?thesis using Inl True a by (simp add: executeWithRetry_unfold [of late fn retries st])
    next
      case False
      then show ?thesis using Inl a by (auto simp add: executeWithRetry_unfold [of late fn retries st])
    qed
  qed
qed

lemma drain_dispatches:
  "length (dispatches (trace st)) + length tasks \<le> length (dispatches (trace (drain late tasks st)))"
proof (induction tasks arbitrary: st)
  case Nil
  then show ?case by simp
next
  case (Cons task rest)
  obtain r st1 where e: "executeWithRetry late task 0 (st\<lparr>queue := rest\<rparr>) = (r, st1)"
    by (cases "executeWithRetry late task 0 (st\<lparr>queue := rest\<rparr>)")
  have "length (dispatches (trace st)) < length (dispatches (trace st1))"
    using executeWithRetry_dispatches [of "st\<lparr>queue := rest\<rparr>" late task 0] e by simp
  moreover have "length (dispatches (trace (st1\<lparr>settlements := settlements st1 @ [r]\<rparr>))) + length rest
      \<le> length (dispatches (trace (drain late rest (st1\<lparr>settlements := settlements st1 @ [r]\<rparr>))))"
    by (rule Cons.IH)
  ultimately show ?case using e by simp
qed

text \<open>
  Claim C6. However many tasks the callers of \<^verbatim>\<open>execute\<close> have queued on a limiter when
  its loop starts, every one of them is run and its promise settled, and any two consecutive
  calls of a submitted function (first attempts and retries alike) are made at least
  \<open>minInterval\<close> = 100 ms apart. Time is as the model has it: one task runs at a time, and
  a timer never fires early.
\<close>

theorem pacing_invariant:
  assumes idle: "\<not> processing st" and fresh: "trace st = []"
  shows "length (settlements (processQueue late st)) = length (settlements st) + length (queue st) \<and>
         queue (processQueue late st) = [] \<and>
         length (queue st) \<le> length (dispatches (trace (processQueue late st))) \<and>
         (\<forall>i. Suc i < length (dispatches (trace (processQueue late st))) \<longrightarrow>
              100 \<le> dispatches (trace (processQueue late st)) ! Suc i
                     - dispatches (trace (processQueue late st)) ! i)"
proof (cases "queue st = []")
  case True
  then show ?thesis using fresh by (simp add: processQueue_def)
next
  case False
  let ?st0 = "st\<lparr>processing := True\<rparr>"
  let ?d = "drain late (queue st) ?st0"
  have pq: "processQueue late st = ?d\<lparr>processing := False\<rparr>"
    using idle False by (simp add: processQueue_def)
  have "pacing_inv ?st0" using fresh by (simp add: pacing_inv_def)
  then have "pacing_inv ?d" by (rule drain_inv)
  then have p: "paced (dispatches (trace ?d))" by (simp add: pacing_inv_def)
  have n: "length (queue st) \<le> length (dispatches (trace ?d))"
    using drain_dispatches [of ?st0 "queue st" late] fresh by simp
  show ?thesis
    using paced_nth [OF p] n False drain_results [of late "queue st" ?st0]
    by (simp add: pq minInterval_def)
qed

theorem pacing_invariant_witness:
  "\<not> processing (idle_limiter\<lparr>queue := three_calls\<rparr>) \<and>
   trace (idle_limiter\<lparr>queue := three_calls\<rparr>) = [] \<and>
   length (settlements (processQueue on_time (idle_limiter\<lparr>queue := three_calls\<rparr>))) = 3 \<and>
   dispatches (trace (processQueue on_time (idle_limiter\<lparr>queue := three_calls\<rparr>)))
     = [1050, 1150, 2155, 2255] \<and>
   100 \<le> dispatches (trace (processQueue on_time (idle_limiter\<lparr>queue := three_calls\<rparr>))) ! Suc 2
          - dispatches (trace (processQueue on_time (idle_limiter\<lparr>queue := three_calls\<rparr>))) ! 2"
proof -
  let ?st = "idle_limiter\<lparr>queue := three_calls\<rparr>"
  let ?ds = "dispatches (trace (processQueue on_time ?st))"
  have h1: "\<not> processing ?st" by (simp add: idle_limiter_def)
  have h2: "trace ?st = []" by (simp add: idle_limiter_def)
  have v: "?ds = [1050, 1150, 2155, 2255]"
    by (simp add: processQueue_def executeWithRetry_unfold dispatch_def waitForInterval_def
        sleep_def minInterval_def maxRetries_def is_rate_limit_def Let_def
        idle_limiter_def on_time_def three_calls_def too_many_requests_def)
  note t = pacing_invariant [OF h1 h2, of on_time]
  have l: "length (settlements (processQueue on_time ?st)) = 3"
    using t by (simp add: three_calls_def idle_limiter_def)
  have "Suc 2 < length ?ds" by (simp add: v)
  with t have "100 \<le> ?ds ! Suc 2 - ?ds ! 2" by blast
  with h1 h2 v l show ?thesis by blast
qed








lemma execute_busy: "processing st \<Longrightarrow> execute late fn st = st\<lparr>queue := queue st @ [fn]\<rparr>"
  by (simp add: execute_def processQueue_def)




subsection \<open>SolanaService: fabricated token holders\<close>

lemma random_below_less:
  assumes "0 \<le> rnd k" "rnd k < 1" "0 < n"
  shows "random_below rnd k n < n"
proof -
  have "rnd k * of_nat n < 1 * of_nat n"
    using assms by (intro mult_strict_right_mono) auto
  then have "\<lfloor>rnd k * of_nat n\<rfloor> < int n" by (simp add: floor_less_iff)
  then have "nat \<lfloor>rnd k * of_nat n\<rfloor> < n" using assms(3) by linarith
  then show ?thesis by (simp add: random_below_def)
qed

lemma random_address_length:
  assumes "\<forall>k. 0 \<le> rnd k \<and> rnd k < 1"
  shows "length (random_address rnd k n) = n \<and> set (random_address rnd k n) \<subseteq> set chars"
proof (induction n arbitrary: k)
  case 0
  then show ?case by simp
next
  case (Suc n)
  have "0 < length chars" by (simp add: chars_def)
  then have "random_below rnd k (length chars) < length chars"
    using assms by (intro random_below_less) auto
  then show ?case using Suc.IH [of "Suc k"] by (auto simp: charAt_def)
qed

lemma sample_holder_props:
  assumes "\<forall>k. 0 \<le> rnd k \<and> rnd k < 1"
  shows "length (owner (sample_holder rnd i)) = 44 \<and> set (owner (sample_holder rnd i)) \<subseteq> set chars \<and>
         0 \<le> amount (sample_holder rnd i) \<and> amount (sample_holder rnd i) < 10 ^ 9 \<and>
         decimals (sample_holder rnd i) = 9"
proof -
  have "random_below rnd (45 * i + 44) 1000000000 < 1000000000"
    using assms by (intro random_below_less) auto
  then show ?thesis
    using random_address_length [OF assms, of "45 * i" 44] by (simp add: sample_holder_def Let_def)
qed

lemma fallback_empty:
  assumes "\<forall>m \<in> set ms. m limit = Inr [] \<or> (\<exists>e. m limit = Inl e)"
  shows "getTokenHoldersWithFallback ms limit = []"
  using assms by (induction ms) auto

lemma createSample_length: "length (createSampleTokenHolders rnd limit) = nat limit"
  by (simp add: createSampleTokenHolders_def)

lemma createSample_set:
  "set (createSampleTokenHolders rnd limit) = sample_holder rnd ` {0..<nat limit}"
  by (simp add: createSampleTokenHolders_def)

lemma createSample_sorted:
  "sorted_wrt (\<lambda>a b. amount b \<le> amount a) (createSampleTokenHolders rnd limit)"
proof -
  have "sorted (map (\<lambda>h. - amount h) (createSampleTokenHolders rnd limit))"
    by (simp add: createSampleTokenHolders_def)
  then show ?thesis by (simp add: sorted_map)
qed

lemma length_chars: "length chars = 55"
  by (simp add: chars_def)

lemma half_index: "random_below one_half k (length chars) = 27"
proof -
  have "\<lfloor>one_half k * of_nat (length chars)\<rfloor> = 27"
    by (simp add: length_chars one_half_def floor_eq_iff)
  then show ?thesis by (simp add: random_below_def)
qed

lemma chars_27: "charAt chars 27 = ''e''"
  by (simp add: charAt_def chars_def)

lemma half_address: "random_address one_half k n = replicate n CHR ''e''"
  by (induction n arbitrary: k) (simp_all add: half_index chars_27)

lemma half_amount: "random_below one_half k 1000000000 = 500000000"
proof -
  have "\<lfloor>one_half k * of_nat 1000000000\<rfloor> = 500000000"
    by (simp add: one_half_def floor_eq_iff)
  then show ?thesis by (simp add: random_below_def)
qed

lemma half_holder: "sample_holder one_half i =
   \<lparr>owner = replicate 44 CHR ''e'', amount = 500000000, uiAmount = 1 / 2, decimals = 9\<rparr>"
  by (simp add: sample_holder_def half_address half_amount Let_def)

lemma half_two: "createSampleTokenHolders one_half 2 =
   [\<lparr>owner = replicate 44 CHR ''e'', amount = 500000000, uiAmount = 1 / 2, decimals = 9\<rparr>,
    \<lparr>owner = replicate 44 CHR ''e'', amount = 500000000, uiAmount = 1 / 2, decimals = 9\<rparr>]"
  by (simp add: createSampleTokenHolders_def half_holder upt_conv_Cons)

text \<open>
  Claim C4, as the code has it. When each of the three fetch methods throws or returns no
  holder, \<^verbatim>\<open>getTopTokenHolders\<close> returns the output of \<^verbatim>\<open>createSampleTokenHolders\<close>, whatever
  \<open>NODE_ENV\<close> is, and so it does when the \<^verbatim>\<open>try\<close> block throws under
  \<open>NODE_ENV = development\<close>. That list depends on the random source alone. It has
  \<open>limit\<close> holders and is not empty when \<open>limit \<ge> 1\<close>, and is empty when \<open>limit \<le> 0\<close>;
  every holder has a 44-character address over the alphabet \<open>chars\<close>, an amount from 0 up
  to \<open>10\<^sup>9\<close> and 9 decimals; the list is in descending order of amount.
\<close>

theorem fabricated_holders:
  assumes rnd: "\<forall>k. 0 \<le> rnd k \<and> rnd k < 1"
    and none: "\<forall>m \<in> {viaTokenAccounts, viaLargestAccounts, viaProgramAccounts}.
                 m limit = Inr [] \<or> (\<exists>e. m limit = Inl e)"
  shows "getTopTokenHolders NODE_ENV None rnd viaTokenAccounts viaLargestAccounts viaProgramAccounts limit
           = Inr (createSampleTokenHolders rnd limit) \<and>
         getTopTokenHolders (Some ''development'') (Some err) rnd
             viaTokenAccounts viaLargestAccounts viaProgramAccounts limit
           = Inr (createSampleTokenHolders rnd limit) \<and>
         length (createSampleTokenHolders rnd limit) = nat limit \<and>
         (1 \<le> limit \<longrightarrow> createSampleTokenHolders rnd limit \<noteq> []) \<and>
         (limit \<le> 0 \<longrightarrow> createSampleTokenHolders rnd limit = []) \<and>
         (\<forall>h \<in> set (createSampleTokenHolders rnd limit).
            length (owner h) = 44 \<and> set (owner h) \<subseteq> set chars \<and>
            0 \<le> amount h \<and> amount h < 10 ^ 9 \<and> decimals h = 9) \<and>
         sorted_wrt (\<lambda>a b. amount b \<le> amount a) (createSampleTokenHolders rnd limit)"
proof -
  have "getTokenHoldersWithFallback [viaTokenAccounts, viaLargestAccounts, viaProgramAccounts] limit = []"
    using none by (intro fallback_empty) simp
  then have a: "getTopTokenHolders NODE_ENV None rnd viaTokenAccounts viaLargestAccounts viaProgramAccounts limit
           = Inr (createSampleTokenHolders rnd limit)"
    by (simp add: getTopTokenHolders_def)
  have b: "getTopTokenHolders (Some ''development'') (Some err) rnd
             viaTokenAccounts viaLargestAccounts viaProgramAccounts limit
           = Inr (createSampleTokenHolders rnd limit)"
    by (simp add: getTopTokenHolders_def)
  have l: "length (createSampleTokenHolders rnd limit) = nat limit" by (rule createSample_length)
  have c: "1 \<le> limit \<longrightarrow> createSampleTokenHolders rnd limit \<noteq> []"
    using l by auto
  have d: "limit \<le> 0 \<longrightarrow> createSampleTokenHolders rnd limit = []"
    using l by auto
  have e: "\<forall>h \<in> set (createSampleTokenHolders rnd limit).
            length (owner h) = 44 \<and> set (owner h) \<subseteq> set chars \<and>
            0 \<le> amount h \<and> amount h < 10 ^ 9 \<and> decimals h = 9"
    using sample_holder_props [OF rnd] by (auto simp: createSample_set)
  show ?thesis using a b l c d e createSample_sorted by blast
qed

theorem fabricated_holders_witness:
  "(\<forall>k. 0 \<le> one_half k \<and> one_half k < 1) \<and>
   no_holders 2 = Inr [] \<and> rpc_down 2 = Inl timed_out \<and>
   getTopTokenHolders None None one_half no_holders rpc_down no_holders 2 =
     Inr [\<lparr>owner = replicate 44 CHR ''e'', amount = 500000000, uiAmount = 1 / 2, decimals = 9\<rparr>,
          \<lparr>owner = replicate 44 CHR ''e'', amount = 500000000, uiAmount = 1 / 2, decimals = 9\<rparr>] \<and>
   length (createSampleTokenHolders one_half 2) = 2"
proof -
  have r: "\<forall>k. 0 \<le> one_half k \<and> one_half k < 1" by (simp add: one_half_def)
  have n: "\<forall>m \<in> {no_holders, rpc_down, no_holders}. m 2 = Inr [] \<or> (\<exists>e. m 2 = Inl e)"
    by (simp add: no_holders_def rpc_down_def)
  have "no_holders 2 = Inr [] \<and> rpc_down 2 = Inl timed_out"
    by (simp add: no_holders_def rpc_down_def)
  then show ?thesis
    using r fabricated_holders [OF r n, of None timed_out] by (simp add: half_two)
qed

text \<open>
  Claim C4 as stated fails for \<open>limit = 0\<close>, which \<^verbatim>\<open>discoverBulkHolders\<close> lets through (it
  only refuses a limit above 1000): no method yields a holder and the list returned is empty.
\<close>

theorem fabricated_holders_counterexample:
  "no_holders 0 = Inr [] \<and>
   getTopTokenHolders None None one_half no_holders no_holders no_holders 0 = Inr []"
  by (simp add: getTopTokenHolders_def no_holders_def createSampleTokenHolders_def)

subsection \<open>broadcastToClients\<close>

lemma filter_removeAll_other: "\<not> P x \<Longrightarrow> filter P (removeAll x xs) = filter P xs"
  by (induction xs) auto

lemma filter_removeAll_visited:
  "\<not> P x \<Longrightarrow>
   filter (\<lambda>c. c \<notin> set rest \<or> P c) (removeAll x xs) = filter (\<lambda>c. c \<notin> set (x # rest) \<or> P c) xs"
  by (induction xs) auto

lemma forEach_send_frame:
  "subscriptions (snd (forEach_send m xs n s)) = subscriptions s \<and>
   isMonitoring (snd (forEach_send m xs n s)) = isMonitoring s \<and>
   nextSubscriptionId (snd (forEach_send m xs n s)) = nextSubscriptionId s \<and>
   accountListeners (snd (forEach_send m xs n s)) = accountListeners s \<and>
   log (snd (forEach_send m xs n s)) = log s"
  by (induction xs arbitrary: n s) (auto simp: send_def split: option.splits)

lemma forEach_send_conns:
  "filter isOpen (wsConnections (snd (forEach_send m xs n s))) = filter isOpen (wsConnections s) \<and>
   set (wsConnections (snd (forEach_send m xs n s))) \<subseteq> set (wsConnections s)"
proof (induction xs arbitrary: n s)
  case Nil
  then show ?case by simp
next
  case (Cons ws rest)
  show ?case
  proof (cases "readyState ws = OPEN")
    case True
    then show ?thesis
      using Cons.IH [of "Suc n" "s\<lparr>sent := sent s @ [(sock_id ws, m)]\<rparr>"]
      by (simp add: send_def split: option.splits)
  next
    case False
    then have "\<not> isOpen ws" by (simp add: isOpen_def)
    then have "filter isOpen (removeAll ws (wsConnections s)) = filter isOpen (wsConnections s)"
      by (rule filter_removeAll_other)
    then show ?thesis
      using False Cons.IH [of n "s\<lparr>wsConnections := removeAll ws (wsConnections s)\<rparr>"]
      by auto
  qed
qed

lemma forEach_send_ok:
  assumes "\<forall>ws \<in> set xs. readyState ws = OPEN \<longrightarrow> sendThrows ws = None"
  shows "forEach_send m xs n s =
           (Inr (n + length (filter isOpen xs)),
            s\<lparr>wsConnections := filter (\<lambda>c. c \<notin> set xs \<or> isOpen c) (wsConnections s),
              sent := sent s @ map (\<lambda>ws. (sock_id ws, m)) (filter isOpen xs)\<rparr>)"
  using assms
proof (induction xs arbitrary: n s)
  case Nil
  then show ?case by simp
next
  case (Cons ws rest)
  then have rest: "\<forall>ws \<in> set rest. readyState ws = OPEN \<longrightarrow> sendThrows ws = None" by simp
  show ?case
  proof (cases "readyState ws = OPEN")
    case True
    then have t: "sendThrows ws = None" using Cons.prems by simp
    have f: "filter (\<lambda>c. c \<notin> set rest \<or> isOpen c) (wsConnections s)
           = filter (\<lambda>c. c \<notin> set (ws # rest) \<or> isOpen c) (wsConnections s)"
      using True by (intro filter_cong) (auto simp: isOpen_def)
    show ?thesis
      using True t f Cons.IH [OF rest, of "Suc n" "s\<lparr>sent := sent s @ [(sock_id ws, m)]\<rparr>"]
      by (simp add: send_def isOpen_def)
  next
    case False
    have f: "filter (\<lambda>c. c \<notin> set rest \<or> isOpen c) (removeAll ws (wsConnections s))
           = filter (\<lambda>c. c \<notin> set (ws # rest) \<or> isOpen c) (wsConnections s)"
      using False by (intro filter_removeAll_visited) (simp add: isOpen_def)
    show ?thesis
      using False f Cons.IH [OF rest, of n "s\<lparr>wsConnections := removeAll ws (wsConnections s)\<rparr>"]
      by (simp add: isOpen_def)
  qed
qed

lemma broadcast_ok:
  assumes "\<forall>ws \<in> set (wsConnections s). readyState ws = OPEN \<longrightarrow> sendThrows ws = None"
  shows "broadcastToClients message s =
           (Inr (),
            s\<lparr>wsConnections := filter isOpen (wsConnections s),
              sent := sent s @ map (\<lambda>ws. (sock_id ws, message)) (filter isOpen (wsConnections s)),
              log := log s @ [Broadcasted (length (filter isOpen (wsConnections s)))]\<rparr>)"
proof -
  have "filter (\<lambda>c. c \<notin> set (wsConnections s) \<or> isOpen c) (wsConnections s)
      = filter isOpen (wsConnections s)"
    by (intro filter_cong) auto
  then show ?thesis
    by (simp add: broadcastToClients_def forEach_send_ok [OF assms] logged_def)
qed

subsection \<open>RealTimeMonitor\<close>

lemma rethrow_logged_fst: "fst (rethrow_logged entry outcome) = fst outcome"
  by (cases outcome) (simp add: rethrow_logged_def split: sum.splits)

lemma rethrow_logged_frame:
  "wsConnections (snd (rethrow_logged entry outcome)) = wsConnections (snd outcome) \<and>
   subscriptions (snd (rethrow_logged entry outcome)) = subscriptions (snd outcome) \<and>
   isMonitoring (snd (rethrow_logged entry outcome)) = isMonitoring (snd outcome) \<and>
   nextSubscriptionId (snd (rethrow_logged entry outcome)) = nextSubscriptionId (snd outcome) \<and>
   accountListeners (snd (rethrow_logged entry outcome)) = accountListeners (snd outcome)"
  by (cases outcome) (simp add: rethrow_logged_def logged_def split: sum.splits)

lemma failed_subscriptions_append:
  "failed_subscriptions (xs @ ys) = failed_subscriptions xs @ failed_subscriptions ys"
  by (simp add: failed_subscriptions_def)

lemma broadcast_snd:
  "snd (broadcastToClients m s) =
     (case fst (forEach_send m (wsConnections s) 0 s) of
        Inl err \<Rightarrow> snd (forEach_send m (wsConnections s) 0 s)
      | Inr n \<Rightarrow> logged (Broadcasted n) (snd (forEach_send m (wsConnections s) 0 s)))"
  by (simp add: broadcastToClients_def split_beta split: sum.splits prod.splits)

lemma broadcast_frame:
  "subscriptions (snd (broadcastToClients m s)) = subscriptions s \<and>
   isMonitoring (snd (broadcastToClients m s)) = isMonitoring s \<and>
   nextSubscriptionId (snd (broadcastToClients m s)) = nextSubscriptionId s \<and>
   accountListeners (snd (broadcastToClients m s)) = accountListeners s \<and>
   failed_subscriptions (log (snd (broadcastToClients m s))) = failed_subscriptions (log s)"
  using forEach_send_frame [of m "wsConnections s" 0 s]
  by (simp add: broadcast_snd logged_def failed_subscriptions_def split: sum.splits)

lemma broadcast_conns:
  "filter isOpen (wsConnections (snd (broadcastToClients m s))) = filter isOpen (wsConnections s) \<and>
   set (wsConnections (snd (broadcastToClients m s))) \<subseteq> set (wsConnections s)"
  using forEach_send_conns [of m "wsConnections s" 0 s]
  by (simp add: broadcast_snd logged_def split: sum.splits)


lemma subscribe_each_frame:
  "wsConnections (snd (subscribe_each env wallets n s)) = wsConnections s \<and>
   isMonitoring (snd (subscribe_each env wallets n s)) = isMonitoring s \<and>
   sent (snd (subscribe_each env wallets n s)) = sent s"
  by (induction wallets arbitrary: n s)
    (auto simp: subscribeToAccountChanges_def logged_def Let_def split: option.splits)

lemma subscribe_each_count:
  "fst (subscribe_each env wallets n s) = n + length (filter (\<lambda>a. rejects env a = None) wallets)"
  by (induction wallets arbitrary: n s)
    (auto simp: subscribeToAccountChanges_def logged_def Let_def split: option.splits)



lemma failed_logged:
  "failed_subscriptions (log (logged entry s)) =
     failed_subscriptions (log s) @ failed_subscriptions [entry]"
  by (simp add: logged_def failed_subscriptions_def)

lemma rethrow_start_failed:
  "failed_subscriptions (log (snd (rethrow_logged StartMonitoringError outcome))) =
     failed_subscriptions (log (snd outcome))"
  by (cases outcome) (simp add: rethrow_logged_def failed_logged split: sum.splits,
      simp add: failed_subscriptions_def)

lemma startMonitoring_snd:
  assumes "getAllWallets env = Inr wallets"
  shows "\<exists>m s1. snd (startMonitoring env s) = snd (rethrow_logged StartMonitoringError (broadcastToClients m s1)) \<and>
         subscriptions s1 = subscriptions (snd (subscribe_each env wallets 0 (logged StartingMonitoring s))) \<and>
         accountListeners s1 = accountListeners (snd (subscribe_each env wallets 0 (logged StartingMonitoring s))) \<and>
         nextSubscriptionId s1 = nextSubscriptionId (snd (subscribe_each env wallets 0 (logged StartingMonitoring s))) \<and>
         failed_subscriptions (log s1) =
           failed_subscriptions (log (snd (subscribe_each env wallets 0 (logged StartingMonitoring s)))) \<and>
         wsConnections s1 = wsConnections s \<and> isMonitoring s1 \<and>
         fst (startMonitoring env s) = fst (broadcastToClients m s1)"
proof (cases "wallets = []")
  case True
  let ?m = "monitoring_started
              [(''walletsCount'', JNum 0),
               (''message'',
                JStr ''Monitoring started but no wallets found. Discover wallets first.'')]"
  let ?s1 = "(logged NoWalletsFound (logged StartingMonitoring s))\<lparr>isMonitoring := True\<rparr>"
  have "startMonitoring env s = rethrow_logged StartMonitoringError (broadcastToClients ?m ?s1)"
    using assms True by (simp add: startMonitoring_def Let_def)
  moreover have "failed_subscriptions (log ?s1) = failed_subscriptions (log (logged StartingMonitoring s))"
    by (simp add: logged_def failed_subscriptions_def)
  ultimately show ?thesis
    using True by (intro exI [of _ ?m] exI [of _ ?s1]) (simp add: rethrow_logged_fst, simp add: logged_def)
next
  case False
  let ?r = "subscribe_each env wallets 0 (logged StartingMonitoring s)"
  let ?m = "monitoring_started
              [(''walletsCount'', JNum (of_nat (fst ?r))),
               (''totalWallets'', JNum (of_nat (length wallets)))]"
  let ?s1 = "logged (StartedMonitoring (fst ?r)) ((snd ?r)\<lparr>isMonitoring := True\<rparr>)"
  have "startMonitoring env s = rethrow_logged StartMonitoringError (broadcastToClients ?m ?s1)"
    using assms False by (simp add: startMonitoring_def Let_def split_beta)
  moreover have "failed_subscriptions (log ?s1) = failed_subscriptions (log (snd ?r))"
    by (simp add: logged_def failed_subscriptions_def)
  moreover have "wsConnections ?s1 = wsConnections s"
    using subscribe_each_frame [of env wallets 0 "logged StartingMonitoring s"]
    by (simp add: logged_def)
  ultimately show ?thesis
    by (intro exI [of _ ?m] exI [of _ ?s1]) (simp add: rethrow_logged_fst, simp add: logged_def)
qed

lemma startMonitoring_subscribed:
  assumes "getAllWallets env = Inr wallets"
  shows "subscriptions (snd (startMonitoring env s)) =
           subscriptions (snd (subscribe_each env wallets 0 (logged StartingMonitoring s))) \<and>
         accountListeners (snd (startMonitoring env s)) =
           accountListeners (snd (subscribe_each env wallets 0 (logged StartingMonitoring s))) \<and>
         nextSubscriptionId (snd (startMonitoring env s)) =
           nextSubscriptionId (snd (subscribe_each env wallets 0 (logged StartingMonitoring s))) \<and>
         failed_subscriptions (log (snd (startMonitoring env s))) =
           failed_subscriptions (log (snd (subscribe_each env wallets 0 (logged StartingMonitoring s))))"
proof -
  obtain m s1 where "snd (startMonitoring env s) = snd (rethrow_logged StartMonitoringError (broadcastToClients m s1))"
    "subscriptions s1 = subscriptions (snd (subscribe_each env wallets 0 (logged StartingMonitoring s)))"
    "accountListeners s1 = accountListeners (snd (subscribe_each env wallets 0 (logged StartingMonitoring s)))"
    "nextSubscriptionId s1 = nextSubscriptionId (snd (subscribe_each env wallets 0 (logged StartingMonitoring s)))"
    "failed_subscriptions (log s1) =
           failed_subscriptions (log (snd (subscribe_each env wallets 0 (logged StartingMonitoring s))))"
    using startMonitoring_snd [OF assms, of s] by blast
  then show ?thesis
    by (simp add: rethrow_logged_frame rethrow_start_failed broadcast_frame)
qed



text \<open>
  Claim C1, as the code has it. When no open connection throws on \<^verbatim>\<open>send\<close>,
  \<^verbatim>\<open>broadcastToClients\<close> sends the message to every registered connection that is open, in
  order, unregisters every connection that is not open and goes on with the rest, and logs
  (it returns nothing) the number of messages sent. The connections left registered are
  exactly the open ones: 5 registered connections of which 2 are closed give a count of 3
  and leave 3 registered.
\<close>

theorem broadcast_prunes:
  assumes "\<forall>ws \<in> set (wsConnections s). readyState ws = OPEN \<longrightarrow> sendThrows ws = None"
  shows "broadcastToClients message s =
           (Inr (),
            s\<lparr>wsConnections := filter isOpen (wsConnections s),
              sent := sent s @ map (\<lambda>ws. (sock_id ws, message)) (filter isOpen (wsConnections s)),
              log := log s @ [Broadcasted (length (filter isOpen (wsConnections s)))]\<rparr>)"
  using assms by (rule broadcast_ok)

theorem broadcast_prunes_witness:
  "map sendThrows (filter isOpen (wsConnections (server_with
        [client 1, closed_client 2, client 3, closed_client 4, client 5]))) = [None, None, None] \<and>
   fst (broadcastToClients event_message (server_with
        [client 1, closed_client 2, client 3, closed_client 4, client 5])) = Inr () \<and>
   wsConnections (snd (broadcastToClients event_message (server_with
        [client 1, closed_client 2, client 3, closed_client 4, client 5])))
     = [client 1, client 3, client 5] \<and>
   log (snd (broadcastToClients event_message (server_with
        [client 1, closed_client 2, client 3, closed_client 4, client 5])))
     = [Broadcasted 3] \<and>
   sent (snd (broadcastToClients event_message (server_with
        [client 1, closed_client 2, client 3, closed_client 4, client 5])))
     = [(1, event_message), (3, event_message), (5, event_message)]"
proof -
  let ?s = "server_with [client 1, closed_client 2, client 3, closed_client 4, client 5]"
  have h: "\<forall>ws \<in> set (wsConnections ?s). readyState ws = OPEN \<longrightarrow> sendThrows ws = None"
    by (simp add: server_with_def client_def closed_client_def)
  show ?thesis
    using h broadcast_prunes [OF h, of event_message]
    by (simp add: server_with_def client_def closed_client_def isOpen_def)
qed

text \<open>
  Claim C1 as stated fails when a \<^verbatim>\<open>send\<close> throws: nothing in \<^verbatim>\<open>broadcastToClients\<close>
  catches it. With 5 open connections of which the second and fourth throw on \<^verbatim>\<open>send\<close>,
  the exception of the second leaves the function: one message has been sent, no count is
  logged, and all 5 connections are still registered.
\<close>

theorem broadcast_throwing_send_counterexample:
  "fst (broadcastToClients event_message (server_with
        [client 1, broken_client 2, client 3, broken_client 4, client 5]))
     = Inl (Error (Some ''write EPIPE'')) \<and>
   wsConnections (snd (broadcastToClients event_message (server_with
        [client 1, broken_client 2, client 3, broken_client 4, client 5])))
     = [client 1, broken_client 2, client 3, broken_client 4, client 5] \<and>
   sent (snd (broadcastToClients event_message (server_with
        [client 1, broken_client 2, client 3, broken_client 4, client 5])))
     = [(1, event_message)] \<and>
   log (snd (broadcastToClients event_message (server_with
        [client 1, broken_client 2, client 3, broken_client 4, client 5]))) = []"
  by (simp add: broadcastToClients_def server_with_def client_def broken_client_def send_def)

lemma unsubscribe_each_frame:
  "wsConnections (unsubscribe_each env subs s) = wsConnections s"
  by (induction subs arbitrary: s)
    (auto simp: unsubscribeFromAccountChanges_def logged_def split: option.splits)

lemma stopMonitoring_snd:
  "\<exists>m s2. snd (stopMonitoring env s) = snd (rethrow_logged StopMonitoringError (broadcastToClients m s2)) \<and>
          fst (stopMonitoring env s) = fst (broadcastToClients m s2) \<and>
          wsConnections s2 = wsConnections s \<and> subscriptions s2 = [] \<and> \<not> isMonitoring s2"
proof -
  let ?m = "JObj [(''type'', JStr ''monitoring_stopped''), (''data'', JObj [])]"
  let ?s0 = "logged StoppingMonitoring s"
  let ?s2 = "logged MonitoringStopped
               ((unsubscribe_each env (subscriptions ?s0) ?s0)\<lparr>subscriptions := [], isMonitoring := False\<rparr>)"
  have "stopMonitoring env s = rethrow_logged StopMonitoringError (broadcastToClients ?m ?s2)"
    by (simp add: stopMonitoring_def Let_def)
  moreover have "wsConnections ?s2 = wsConnections s"
    by (simp add: logged_def unsubscribe_each_frame)
  ultimately show ?thesis
    by (intro exI [of _ ?m] exI [of _ ?s2]) (simp add: rethrow_logged_fst, simp add: logged_def)
qed

text \<open>
  Claim C10, as the code has it. \<^verbatim>\<open>stopMonitoring\<close> clears the subscriptions, resets the flag
  and then broadcasts \<^verbatim>\<open>monitoring_stopped\<close>, which unregisters the connections that are not
  open. So every open connection stays registered and none is added; when no \<^verbatim>\<open>send\<close>
  throws, the connections left are exactly the open ones.
\<close>

theorem stop_keeps_open_connections:
  "subscriptions (snd (stopMonitoring env s)) = [] \<and>
   \<not> isMonitoring (snd (stopMonitoring env s)) \<and>
   filter isOpen (wsConnections (snd (stopMonitoring env s))) = filter isOpen (wsConnections s) \<and>
   set (wsConnections (snd (stopMonitoring env s))) \<subseteq> set (wsConnections s) \<and>
   ((\<forall>c \<in> set (wsConnections s). readyState c = OPEN \<longrightarrow> sendThrows c = None) \<longrightarrow>
      wsConnections (snd (stopMonitoring env s)) = filter isOpen (wsConnections s))"
proof -
  obtain m s2 where r: "snd (stopMonitoring env s) = snd (rethrow_logged StopMonitoringError (broadcastToClients m s2))"
    and c: "wsConnections s2 = wsConnections s" and e: "subscriptions s2 = []" and i: "\<not> isMonitoring s2"
    using stopMonitoring_snd [of env s] by blast
  have a: "subscriptions (snd (stopMonitoring env s)) = [] \<and> \<not> isMonitoring (snd (stopMonitoring env s))"
    using e i by (simp add: r rethrow_logged_frame broadcast_frame)
  have b: "filter isOpen (wsConnections (snd (stopMonitoring env s))) = filter isOpen (wsConnections s) \<and>
      set (wsConnections (snd (stopMonitoring env s))) \<subseteq> set (wsConnections s)"
    using broadcast_conns [of m s2] c by (simp add: r rethrow_logged_frame)
  have d: "(\<forall>c \<in> set (wsConnections s). readyState c = OPEN \<longrightarrow> sendThrows c = None) \<longrightarrow>
      wsConnections (snd (stopMonitoring env s)) = filter isOpen (wsConnections s)"
  proof
    assume "\<forall>c \<in> set (wsConnections s). readyState c = OPEN \<longrightarrow> sendThrows c = None"
    then have "\<forall>c \<in> set (wsConnections s2). readyState c = OPEN \<longrightarrow> sendThrows c = None"
      by (simp add: c)
    then show "wsConnections (snd (stopMonitoring env s)) = filter isOpen (wsConnections s)"
      using c by (simp add: r rethrow_logged_frame broadcast_ok)
  qed
  show ?thesis using a b d by blast
qed

theorem stop_keeps_open_connections_witness:
  "map sendThrows (filter isOpen (wsConnections (server_with [client 1, client 2])))
     = [None, None] \<and>
   wsConnections (snd (stopMonitoring (env_with [] []) (server_with [client 1, client 2])))
     = [client 1, client 2] \<and>
   subscriptions (snd (stopMonitoring (env_with [] []) (server_with [client 1, client 2]))) = []"
proof -
  have h: "\<forall>c \<in> set (wsConnections (server_with [client 1, client 2])).
      readyState c = OPEN \<longrightarrow> sendThrows c = None"
    by (simp add: server_with_def client_def)
  have "filter isOpen (wsConnections (server_with [client 1, client 2])) = [client 1, client 2]"
    by (simp add: server_with_def client_def isOpen_def)
  then show ?thesis
    using h stop_keeps_open_connections [of "env_with [] []" "server_with [client 1, client 2]"]
    by (simp add: client_def)
qed

text \<open>
  Claim C10 as stated fails for a connection that is registered and already closed: the
  broadcast at the end of \<^verbatim>\<open>stopMonitoring\<close> removes it from \<open>wsConnections\<close>.
\<close>

theorem stop_removes_closed_connection_counterexample:
  "wsConnections (server_with [client 1, closed_client 2]) = [client 1, closed_client 2] \<and>
   wsConnections (snd (stopMonitoring (env_with [] []) (server_with [client 1, closed_client 2])))
     = [client 1]"
  by (simp add: stopMonitoring_def Let_def rethrow_logged_def broadcastToClients_def send_def
      logged_def server_with_def client_def closed_client_def)

lemma subscribe_one:
  assumes "rejects env x = None"
  shows "subscriptions (snd (subscribe_each env [x] n s)) = AList.update x (nextSubscriptionId s) (subscriptions s) \<and>
         accountListeners (snd (subscribe_each env [x] n s)) = accountListeners s @ [(nextSubscriptionId s, x)] \<and>
         nextSubscriptionId (snd (subscribe_each env [x] n s)) = Suc (nextSubscriptionId s)"
  using assms by (simp add: subscribeToAccountChanges_def logged_def Let_def)

text \<open>
  Claim C3, as the code has it. With one wallet \<open>x\<close> in the store and no subscription
  yet, two calls of \<^verbatim>\<open>startMonitoring\<close> in a row leave one entry for \<open>x\<close> in
  \<open>subscriptions\<close> and \<open>walletsCount = 1\<close>, and \<^verbatim>\<open>stopMonitoring\<close> then gives
  \<open>walletsCount = 0\<close>. The second call is not a no-op: it opens a second listener on the
  ledger connection and stores its identifier in place of the first.
\<close>

theorem restart_resubscribes:
  assumes wallets: "getAllWallets env = Inr [x]" and ok: "rejects env x = None"
    and fresh: "subscriptions s = []"
  shows "subscriptions (snd (startMonitoring env s)) = [(x, nextSubscriptionId s)] \<and>
         subscriptions (snd (startMonitoring env (snd (startMonitoring env s))))
           = [(x, Suc (nextSubscriptionId s))] \<and>
         walletsCount (getStatus (snd (startMonitoring env (snd (startMonitoring env s))))) = 1 \<and>
         accountListeners (snd (startMonitoring env (snd (startMonitoring env s))))
           = accountListeners s @ [(nextSubscriptionId s, x), (Suc (nextSubscriptionId s), x)] \<and>
         walletsCount (getStatus (snd (stopMonitoring env
             (snd (startMonitoring env (snd (startMonitoring env s))))))) = 0"
proof -
  let ?s1 = "snd (startMonitoring env s)"
  let ?s2 = "snd (startMonitoring env ?s1)"
  have l: "subscriptions (logged StartingMonitoring t) = subscriptions t"
    "accountListeners (logged StartingMonitoring t) = accountListeners t"
    "nextSubscriptionId (logged StartingMonitoring t) = nextSubscriptionId t" for t
    by (simp_all add: logged_def)
  have one: "subscriptions ?s1 = [(x, nextSubscriptionId s)] \<and>
        accountListeners ?s1 = accountListeners s @ [(nextSubscriptionId s, x)] \<and>
        nextSubscriptionId ?s1 = Suc (nextSubscriptionId s)"
    using fresh startMonitoring_subscribed [OF wallets, of s]
      subscribe_one [OF ok, of 0 "logged StartingMonitoring s"]
    by (simp add: l del: subscribe_each.simps)
  have two: "subscriptions ?s2 = [(x, Suc (nextSubscriptionId s))] \<and>
        accountListeners ?s2
          = accountListeners s @ [(nextSubscriptionId s, x), (Suc (nextSubscriptionId s), x)]"
    using one startMonitoring_subscribed [OF wallets, of ?s1]
      subscribe_one [OF ok, of 0 "logged StartingMonitoring ?s1"]
    by (simp add: l del: subscribe_each.simps)
  obtain m s3 where "snd (stopMonitoring env ?s2)
        = snd (rethrow_logged StopMonitoringError (broadcastToClients m s3))" "subscriptions s3 = []"
    using stopMonitoring_snd [of env ?s2] by blast
  then have "subscriptions (snd (stopMonitoring env ?s2)) = []"
    by (simp add: rethrow_logged_frame broadcast_frame)
  then show ?thesis using one two by (simp add: getStatus_def)
qed

theorem restart_resubscribes_witness:
  "getAllWallets (env_with [''w0''] []) = Inr [''w0''] \<and> rejects (env_with [''w0''] []) ''w0'' = None \<and>
   subscriptions (server_with [client 1]) = [] \<and>
   walletsCount (getStatus (snd (startMonitoring (env_with [''w0''] [])
      (snd (startMonitoring (env_with [''w0''] []) (server_with [client 1])))))) = 1 \<and>
   walletsCount (getStatus (snd (stopMonitoring (env_with [''w0''] [])
      (snd (startMonitoring (env_with [''w0''] [])
         (snd (startMonitoring (env_with [''w0''] []) (server_with [client 1])))))))) = 0"
proof -
  have w: "getAllWallets (env_with [''w0''] []) = Inr [''w0'']" by (simp add: env_with_def)
  have r: "rejects (env_with [''w0''] []) ''w0'' = None" by (simp add: env_with_def)
  have f: "subscriptions (server_with [client 1]) = []" by (simp add: server_with_def)
  show ?thesis using w r f restart_resubscribes [OF w r f] by simp
qed

text \<open>
  Claim C3 as stated fails: after the second \<^verbatim>\<open>startMonitoring\<close> the handle stored for the
  wallet is 1, not the 0 of the first call, and two listeners are open for it; stopping
  removes only the listener stored.
\<close>

theorem restart_duplicates_subscription_counterexample:
  "subscriptions (snd (startMonitoring (env_with [''w0''] []) (server_with [client 1])))
     = [(''w0'', 0)] \<and>
   accountListeners (snd (startMonitoring (env_with [''w0''] []) (server_with [client 1])))
     = [(0, ''w0'')] \<and>
   subscriptions (snd (startMonitoring (env_with [''w0''] [])
      (snd (startMonitoring (env_with [''w0''] []) (server_with [client 1])))))
     = [(''w0'', 1)] \<and>
   accountListeners (snd (startMonitoring (env_with [''w0''] [])
      (snd (startMonitoring (env_with [''w0''] []) (server_with [client 1])))))
     = [(0, ''w0''), (1, ''w0'')] \<and>
   accountListeners (snd (stopMonitoring (env_with [''w0''] [])
      (snd (startMonitoring (env_with [''w0''] [])
         (snd (startMonitoring (env_with [''w0''] []) (server_with [client 1])))))))
     = [(0, ''w0'')]"
  by (simp add: startMonitoring_def stopMonitoring_def Let_def rethrow_logged_def
      broadcastToClients_def send_def logged_def subscribeToAccountChanges_def
      unsubscribeFromAccountChanges_def monitoring_started_def
      server_with_def env_with_def client_def)

subsection \<open>Batch sync\<close>

declare sync_batches.simps [simp del]
declare bulk_batches.simps [simp del]

lemma slice_batch:
  assumes "0 \<le> i" "i < int (length xs)" "0 < b"
  shows "slice xs i (i + b) = take (nat b) (drop (nat i) xs)"
proof -
  have "take (nat (min (i + b) (int (length xs)) - i)) (drop (nat i) xs) = take (nat b) (drop (nat i) xs)"
  proof (cases "i + b \<le> int (length xs)")
    case True
    then show ?thesis by (simp add: min_def)
  next
    case False
    then have "length (drop (nat i) xs) \<le> nat (int (length xs) - i)"
      and "length (drop (nat i) xs) \<le> nat b" using assms by auto
    then show ?thesis using False by (simp add: min_def)
  qed
  then show ?thesis using assms by (simp add: slice_def Let_def min_def)
qed

lemma drop_next: "0 \<le> i \<Longrightarrow> 0 < b \<Longrightarrow> drop (nat (i + b)) xs = drop (nat b) (drop (nat i) xs)"
  by (simp add: nat_add_distrib add.commute)

lemma batches_append: "batches (xs @ ys) = batches xs @ batches ys"
  by (simp add: batches_def)

lemma count_results_batch:
  "successCount (count_results (allSettled (map (sync_wallet sync limit) batch)) run)
     = successCount run + length (filter (\<lambda>a. \<not> isl (sync a limit)) batch) \<and>
   failedCount (count_results (allSettled (map (sync_wallet sync limit) batch)) run)
     = failedCount run + length (filter (\<lambda>a. isl (sync a limit)) batch) \<and>
   events (count_results (allSettled (map (sync_wallet sync limit) batch)) run) = events run"
  by (induction batch arbitrary: run)
    (auto simp: allSettled_def sync_wallet_def split: sum.splits)

lemma accounted_nothing: "accounted sync limit [] run run"
  by (simp add: accounted_def)

lemma accounted_step:
  assumes c: "successCount run1 = successCount run + length (filter (\<lambda>a. \<not> isl (sync a limit)) (take n todo))"
      "failedCount run1 = failedCount run + length (filter (\<lambda>a. isl (sync a limit)) (take n todo))"
      "concat (batches (events run1)) = concat (batches (events run)) @ take n todo"
    and rest: "accounted sync limit (drop n todo) run1 run'"
  shows "accounted sync limit todo run run'"
proof -
  have f: "filter P todo = filter P (take n todo) @ filter P (drop n todo)" for P
    by (metis append_take_drop_id filter_append)
  have "length (filter P todo) = length (filter P (take n todo)) + length (filter P (drop n todo))" for P
    using f [of P] by (metis length_append)
  then show ?thesis
    using c rest unfolding accounted_def
    by (metis (no_types, lifting) add.assoc append.assoc append_take_drop_id)
qed

lemma sync_batches_accounted:
  "0 \<le> i \<Longrightarrow> accounted sync 5 (drop (nat i) wallets) run (sync_batches sync wallets i run)"
proof (induction sync wallets i run rule: sync_batches.induct)
  case (1 sync wallets i run)
  show ?case
  proof (cases "i < int (length wallets)")
    case False
    then show ?thesis using "1.prems"
      by (simp add: sync_batches.simps [of sync wallets i run] accounted_nothing)
  next
    case True
    let ?todo = "drop (nat i) wallets"
    let ?batch = "slice wallets i (i + 5)"
    let ?run1 = "count_results (allSettled (map (sync_wallet sync 5) ?batch))
                   (run\<lparr>events := events run @ [BatchStarted ?batch]\<rparr>)"
    let ?run2 = "if i + 5 < int (length wallets)
                 then ?run1\<lparr>events := events ?run1 @ [Paused 2000]\<rparr> else ?run1"
    have b: "?batch = take 5 ?todo" using True "1.prems" slice_batch [of i wallets 5] by simp
    have u: "sync_batches sync wallets i run = sync_batches sync wallets (i + 5) ?run2"
      using True by (subst sync_batches.simps) (simp add: Let_def)
    have ih: "accounted sync 5 (drop (nat (i + 5)) wallets) ?run2 (sync_batches sync wallets (i + 5) ?run2)"
      using "1.prems" by (intro "1.IH" [OF True refl refl refl refl refl]) simp
    have d: "drop (nat (i + 5)) wallets = drop 5 ?todo"
      using "1.prems" drop_next [of i 5 wallets] by simp
    note c = count_results_batch [of sync 5 ?batch "run\<lparr>events := events run @ [BatchStarted ?batch]\<rparr>"]
    have s1: "successCount ?run2 = successCount run + length (filter (\<lambda>a. \<not> isl (sync a 5)) ?batch)"
      using c by simp
    have s2: "failedCount ?run2 = failedCount run + length (filter (\<lambda>a. isl (sync a 5)) ?batch)"
      using c by simp
    have s3: "concat (batches (events ?run2)) = concat (batches (events run)) @ ?batch"
      using c by (simp add: batches_append) (simp add: batches_def)
    show ?thesis unfolding u
    proof (rule accounted_step [where n = 5 and ?run1.0 = ?run2])
      show "successCount ?run2 = successCount run + length (filter (\<lambda>a. \<not> isl (sync a 5)) (take 5 ?todo))"
        unfolding b [symmetric] by (rule s1)
      show "failedCount ?run2 = failedCount run + length (filter (\<lambda>a. isl (sync a 5)) (take 5 ?todo))"
        unfolding b [symmetric] by (rule s2)
      show "concat (batches (events ?run2)) = concat (batches (events run)) @ take 5 ?todo"
        unfolding b [symmetric] by (rule s3)
      show "accounted sync 5 (drop 5 ?todo) ?run2 (sync_batches sync wallets (i + 5) ?run2)"
        unfolding d [symmetric] by (rule ih)
    qed
  qed
qed


lemma bulk_batches_step:
  assumes "i < int (length wl)"
  shows "bulk_batches (Suc fuel) sync wl limit b i run =
     bulk_batches fuel sync wl limit b (i + b)
       ((if i + b < int (length wl)
         then (count_results (allSettled (map (sync_wallet sync limit) (slice wl i (i + b))))
                 (run\<lparr>events := events run @ [BatchStarted (slice wl i (i + b))]\<rparr>))
              \<lparr>events := events (count_results (allSettled (map (sync_wallet sync limit) (slice wl i (i + b))))
                 (run\<lparr>events := events run @ [BatchStarted (slice wl i (i + b))]\<rparr>)) @ [Paused 2000]\<rparr>
         else count_results (allSettled (map (sync_wallet sync limit) (slice wl i (i + b))))
                 (run\<lparr>events := events run @ [BatchStarted (slice wl i (i + b))]\<rparr>))
        \<lparr>events := events (if i + b < int (length wl)
         then (count_results (allSettled (map (sync_wallet sync limit) (slice wl i (i + b))))
                 (run\<lparr>events := events run @ [BatchStarted (slice wl i (i + b))]\<rparr>))
              \<lparr>events := events (count_results (allSettled (map (sync_wallet sync limit) (slice wl i (i + b))))
                 (run\<lparr>events := events run @ [BatchStarted (slice wl i (i + b))]\<rparr>)) @ [Paused 2000]\<rparr>
         else count_results (allSettled (map (sync_wallet sync limit) (slice wl i (i + b))))
                 (run\<lparr>events := events run @ [BatchStarted (slice wl i (i + b))]\<rparr>)) @
            [Progress (i + int (length (slice wl i (i + b)))) (length wl)]\<rparr>)"
  using assms by (subst bulk_batches.simps) (simp add: Let_def)

lemma bulk_batches_accounted:
  "0 < b \<Longrightarrow> 0 \<le> i \<Longrightarrow> bulk_batches fuel sync wl limit b i run = Some run' \<Longrightarrow>
   accounted sync limit (drop (nat i) wl) run run'"
proof (induction fuel arbitrary: i run)
  case 0
  then have "\<not> i < int (length wl)" and "run' = run"
    by (auto simp: bulk_batches.simps [of 0] split: if_splits)
  then show ?case using "0.prems" by (simp add: accounted_nothing)
next
  case (Suc fuel)
  show ?case
  proof (cases "i < int (length wl)")
    case False
    then have "run' = run" using Suc.prems by (simp add: bulk_batches.simps [of "Suc fuel"])
    then show ?thesis using False Suc.prems by (simp add: accounted_nothing)
  next
    case True
    let ?todo = "drop (nat i) wl"
    let ?batch = "slice wl i (i + b)"
    let ?run1 = "count_results (allSettled (map (sync_wallet sync limit) ?batch))
                   (run\<lparr>events := events run @ [BatchStarted ?batch]\<rparr>)"
    let ?run2 = "if i + b < int (length wl)
                 then ?run1\<lparr>events := events ?run1 @ [Paused 2000]\<rparr> else ?run1"
    let ?run3 = "?run2\<lparr>events := events ?run2 @ [Progress (i + int (length ?batch)) (length wl)]\<rparr>"
    have bt: "?batch = take (nat b) ?todo" using True Suc.prems slice_batch [of i wl b] by simp
    have u: "bulk_batches (Suc fuel) sync wl limit b i run = bulk_batches fuel sync wl limit b (i + b) ?run3"
      using bulk_batches_step [OF True] .
    have ih: "accounted sync limit (drop (nat (i + b)) wl) ?run3 run'"
      using Suc.prems u by (intro Suc.IH) simp_all
    have d: "drop (nat (i + b)) wl = drop (nat b) ?todo"
      using Suc.prems drop_next [of i b wl] by simp
    note c = count_results_batch [of sync limit ?batch "run\<lparr>events := events run @ [BatchStarted ?batch]\<rparr>"]
    have s1: "successCount ?run3 = successCount run + length (filter (\<lambda>a. \<not> isl (sync a limit)) ?batch)"
      using c by simp
    have s2: "failedCount ?run3 = failedCount run + length (filter (\<lambda>a. isl (sync a limit)) ?batch)"
      using c by simp
    have s3: "concat (batches (events ?run3)) = concat (batches (events run)) @ ?batch"
      using c by (simp add: batches_append) (simp add: batches_def)
    show ?thesis
    proof (rule accounted_step [where n = "nat b" and ?run1.0 = ?run3])
      show "successCount ?run3 = successCount run + length (filter (\<lambda>a. \<not> isl (sync a limit)) (take (nat b) ?todo))"
        unfolding bt [symmetric] by (rule s1)
      show "failedCount ?run3 = failedCount run + length (filter (\<lambda>a. isl (sync a limit)) (take (nat b) ?todo))"
        unfolding bt [symmetric] by (rule s2)
      show "concat (batches (events ?run3)) = concat (batches (events run)) @ take (nat b) ?todo"
        unfolding bt [symmetric] by (rule s3)
      show "accounted sync limit (drop (nat b) ?todo) ?run3 run'"
        unfolding d [symmetric] by (rule ih)
    qed
  qed
qed

lemma bulk_batches_returns:
  "0 < b \<Longrightarrow> 0 \<le> i \<Longrightarrow> length wl - nat i \<le> fuel \<Longrightarrow>
   \<exists>run'. bulk_batches fuel sync wl limit b i run = Some run'"
proof (induction fuel arbitrary: i run)
  case 0
  then have "\<not> i < int (length wl)" by auto
  then show ?case by (simp add: bulk_batches.simps [of 0])
next
  case (Suc fuel)
  show ?case
  proof (cases "i < int (length wl)")
    case False
    then show ?thesis by (simp add: bulk_batches.simps [of "Suc fuel"])
  next
    case True
    have "length wl - nat (i + b) \<le> fuel" using Suc.prems True by linarith
    then show ?thesis
      unfolding bulk_batches_step [OF True] using Suc.prems by (intro Suc.IH) simp_all
  qed
qed

lemma bulk_batches_never_returns:
  "b \<le> 0 \<Longrightarrow> i < int (length wl) \<Longrightarrow> bulk_batches fuel sync wl limit b i run = None"
proof (induction fuel arbitrary: i run)
  case 0
  then show ?case by (simp add: bulk_batches.simps [of 0])
next
  case (Suc fuel)
  then have "i + b < int (length wl)" by simp
  then show ?case
    unfolding bulk_batches_step [OF Suc.prems(2)] using Suc.prems(1) by (intro Suc.IH)
qed

lemma accounted_total:
  "accounted sync limit todo run run' \<Longrightarrow>
   successCount run' + failedCount run' = successCount run + failedCount run + length todo"
  using sum_length_filter_compl [of "\<lambda>a. \<not> isl (sync a limit)" todo]
  by (simp add: accounted_def)

text \<open>
  Claim C2, as the code has it. \<^verbatim>\<open>syncAllWalletTransactions\<close> returns, for every list of wallets the store
  gives it, counters with \<open>success + failed\<close> equal to the length of the list: \<open>success\<close>
  is the number of wallets whose sync returned and \<open>failed\<close> the number of those whose sync
  threw, and the batches started make up the list, so every wallet is attempted and counted
  once and a failure stops nothing. \<^verbatim>\<open>performBulkSync\<close> does the same with its own limit
  whenever \<open>batchSize \<ge> 1\<close>; it needs no more passes than there are wallets. Neither
  function can be cancelled, so every run is of this kind.
\<close>

theorem sync_accounting:
  "(findMany = Inr wallets \<longrightarrow>
      (\<exists>run. syncAllWalletTransactions sync findMany = Inr run \<and>
             successCount run + failedCount run = length wallets \<and>
             successCount run = length (filter (\<lambda>a. \<not> isl (sync a 5)) wallets) \<and>
             failedCount run = length (filter (\<lambda>a. isl (sync a 5)) wallets) \<and>
             concat (batches (events run)) = wallets)) \<and>
   (0 < batchSize \<and> length walletAddresses \<le> fuel \<longrightarrow>
      (\<exists>run. performBulkSync fuel sync syncId walletAddresses transactionsPerWallet batchSize = Some run \<and>
             successCount run + failedCount run = length walletAddresses \<and>
             successCount run
               = length (filter (\<lambda>a. \<not> isl (sync a transactionsPerWallet)) walletAddresses) \<and>
             failedCount run
               = length (filter (\<lambda>a. isl (sync a transactionsPerWallet)) walletAddresses) \<and>
             concat (batches (events run)) = walletAddresses))"
proof (intro conjI impI)
  assume f: "findMany = Inr wallets"
  let ?run0 = "\<lparr>successCount = 0, failedCount = 0, events = []\<rparr>"
  have a: "accounted sync 5 wallets ?run0 (sync_batches sync wallets 0 ?run0)"
    using sync_batches_accounted [of 0 sync wallets ?run0] by simp
  show "\<exists>run. syncAllWalletTransactions sync findMany = Inr run \<and>
             successCount run + failedCount run = length wallets \<and>
             successCount run = length (filter (\<lambda>a. \<not> isl (sync a 5)) wallets) \<and>
             failedCount run = length (filter (\<lambda>a. isl (sync a 5)) wallets) \<and>
             concat (batches (events run)) = wallets"
    using a accounted_total [OF a] f
    by (simp add: syncAllWalletTransactions_def accounted_def batches_def)
next
  assume h: "0 < batchSize \<and> length walletAddresses \<le> fuel"
  let ?run0 = "\<lparr>successCount = 0, failedCount = 0, events = []\<rparr>"
  obtain run where r: "bulk_batches fuel sync walletAddresses transactionsPerWallet batchSize 0 ?run0 = Some run"
    using h bulk_batches_returns [of batchSize 0 walletAddresses fuel sync transactionsPerWallet ?run0]
    by auto
  have a: "accounted sync transactionsPerWallet walletAddresses ?run0 run"
    using h bulk_batches_accounted [OF _ _ r] by simp
  show "\<exists>run. performBulkSync fuel sync syncId walletAddresses transactionsPerWallet batchSize = Some run \<and>
             successCount run + failedCount run = length walletAddresses \<and>
             successCount run
               = length (filter (\<lambda>a. \<not> isl (sync a transactionsPerWallet)) walletAddresses) \<and>
             failedCount run
               = length (filter (\<lambda>a. isl (sync a transactionsPerWallet)) walletAddresses) \<and>
             concat (batches (events run)) = walletAddresses"
    using a accounted_total [OF a] r by (simp add: performBulkSync_def accounted_def batches_def)
qed

lemma performBulkSync_complete:
  "(performBulkSync fuel sync syncId walletAddresses transactionsPerWallet batchSize = Some run \<longrightarrow>
      concat (batches (events run)) = walletAddresses \<and>
      successCount run + failedCount run = length walletAddresses) \<and>
   (0 < batchSize \<and> length walletAddresses \<le> fuel \<longrightarrow>
      performBulkSync fuel sync syncId walletAddresses transactionsPerWallet batchSize \<noteq> None)"
proof (intro conjI impI)
  let ?run0 = "\<lparr>successCount = 0, failedCount = 0, events = []\<rparr>"
  assume r: "performBulkSync fuel sync syncId walletAddresses transactionsPerWallet batchSize = Some run"
  have a: "accounted sync transactionsPerWallet walletAddresses ?run0 run"
  proof (cases "0 < batchSize")
    case True
    then show ?thesis
      using r bulk_batches_accounted [of batchSize 0 fuel sync walletAddresses transactionsPerWallet ?run0 run]
      by (simp add: performBulkSync_def)
  next
    case False
    then have b: "batchSize \<le> 0" by simp
    have "walletAddresses = []"
    proof (rule ccontr)
      assume "walletAddresses \<noteq> []"
      then have "0 < int (length walletAddresses)" by simp
      then have "performBulkSync fuel sync syncId walletAddresses transactionsPerWallet batchSize = None"
        unfolding performBulkSync_def using b by (intro bulk_batches_never_returns)
      then show False using r by simp
    qed
    then show ?thesis
      using r by (simp add: performBulkSync_def bulk_batches.simps [of fuel] accounted_def batches_def)
  qed
  show "concat (batches (events run)) = walletAddresses"
    using a by (simp add: accounted_def batches_def)
  show "successCount run + failedCount run = length walletAddresses"
    using accounted_total [OF a] by simp
next
  assume h: "0 < batchSize \<and> length walletAddresses \<le> fuel"
  then show "performBulkSync fuel sync syncId walletAddresses transactionsPerWallet batchSize \<noteq> None"
    using bulk_batches_returns [of batchSize 0 walletAddresses fuel sync transactionsPerWallet
        "\<lparr>successCount = 0, failedCount = 0, events = []\<rparr>"]
    by (auto simp: performBulkSync_def)
qed

text \<open>
  Claim C7, as the code has it. \<^verbatim>\<open>performBulkSync\<close> cannot be cancelled. Whenever it
  returns, the batches it started make up the whole list, in order, and
  \<open>success + failed\<close> is the length of the list, never less; and with \<open>batchSize \<ge> 1\<close> it
  does return.
\<close>

theorem bulk_sync_never_stops_early:
  "(performBulkSync fuel sync syncId walletAddresses transactionsPerWallet batchSize = Some run \<longrightarrow>
      concat (batches (events run)) = walletAddresses \<and>
      successCount run + failedCount run = length walletAddresses) \<and>
   (0 < batchSize \<and> length walletAddresses \<le> fuel \<longrightarrow>
      performBulkSync fuel sync syncId walletAddresses transactionsPerWallet batchSize \<noteq> None)"
  by (rule performBulkSync_complete)

lemma flaky_failures: "length (filter (\<lambda>a. isl (flaky_sync a limit)) ten_wallets) = 2"
  by (simp add: flaky_sync_def ten_wallets_def)

lemma flaky_successes:
  "length (filter (\<lambda>a. \<not> isl (flaky_sync a limit)) ten_wallets) = 8"
  by (simp add: flaky_sync_def ten_wallets_def)

theorem sync_accounting_witness:
  "(\<exists>run. syncAllWalletTransactions flaky_sync (Inr ten_wallets) = Inr run \<and>
          successCount run + failedCount run = 10 \<and> successCount run = 8 \<and> failedCount run = 2 \<and>
          concat (batches (events run)) = ten_wallets) \<and>
   (0::int) < 3 \<and> length ten_wallets \<le> 10 \<and>
   (\<exists>run. performBulkSync 10 flaky_sync ''sync_1'' ten_wallets 100 3 = Some run \<and>
          successCount run + failedCount run = 10 \<and> successCount run = 8 \<and> failedCount run = 2 \<and>
          concat (batches (events run)) = ten_wallets)"
proof -
  have l: "length ten_wallets = 10" by (simp add: ten_wallets_def)
  show ?thesis
    using l sync_accounting [of "Inr ten_wallets" ten_wallets flaky_sync 3 ten_wallets 10 "''sync_1''" 100]
    by (simp add: flaky_failures flaky_successes)
qed

text \<open>
  Claim C2 as stated fails for \<^verbatim>\<open>performBulkSync\<close> with \<open>batchSize = 0\<close>, which
  \<^verbatim>\<open>syncHistoricalData\<close> passes on from the request body unchecked: on a list of one
  wallet every pass of the loop takes the empty batch \<^verbatim>\<open>slice(0, 0)\<close>, counts nothing,
  pauses and leaves \<open>i\<close> at 0, so the run returns no counts, whatever the number of passes
  allowed.
\<close>

theorem zero_batch_size_counterexample:
  "(\<forall>fuel. performBulkSync fuel flaky_sync ''sync_1'' [''w0''] 100 0 = None) \<and>
   slice [''w0''] 0 (0 + 0) = [] \<and>
   \<not> (\<exists>fuel run. performBulkSync fuel flaky_sync ''sync_1'' [''w0''] 100 0 = Some run \<and>
                    successCount run + failedCount run = length [''w0''])"
proof -
  have n: "performBulkSync fuel flaky_sync ''sync_1'' [''w0''] 100 0 = None" for fuel
    unfolding performBulkSync_def by (rule bulk_batches_never_returns) simp_all
  have e: "slice [''w0''] 0 (0 + 0) = []" by (simp add: slice_def)
  show ?thesis using n e by simp
qed

lemma three_wallets_run:
  "performBulkSync 3 flaky_sync ''sync_1'' [''w0'', ''w3'', ''w5''] 100 2 =
     Some \<lparr>successCount = 2, failedCount = 1,
           events = [BatchStarted [''w0'', ''w3''], Paused 2000, Progress 2 3,
                     BatchStarted [''w5''], Progress 3 3]\<rparr>"
  by (simp add: performBulkSync_def bulk_batches.simps slice_def allSettled_def sync_wallet_def
      flaky_sync_def Let_def)

theorem bulk_sync_never_stops_early_witness:
  "performBulkSync 3 flaky_sync ''sync_1'' [''w0'', ''w3'', ''w5''] 100 2 =
     Some \<lparr>successCount = 2, failedCount = 1,
           events = [BatchStarted [''w0'', ''w3''], Paused 2000, Progress 2 3,
                     BatchStarted [''w5''], Progress 3 3]\<rparr> \<and>
   concat (batches [BatchStarted [''w0'', ''w3''], Paused 2000, Progress 2 3,
                    BatchStarted [''w5''], Progress 3 3]) = [''w0'', ''w3'', ''w5''] \<and>
   (0::int) < 2 \<and> length [''w0'', ''w3'', ''w5''] \<le> (3::nat) \<and>
   performBulkSync 3 flaky_sync ''sync_1'' [''w0'', ''w3'', ''w5''] 100 2 \<noteq> None"
  using three_wallets_run
    bulk_sync_never_stops_early [of 3 flaky_sync "''sync_1''" "[''w0'', ''w3'', ''w5'']" 100 2
      "\<lparr>successCount = 2, failedCount = 1,
           events = [BatchStarted [''w0'', ''w3''], Paused 2000, Progress 2 3,
                     BatchStarted [''w5''], Progress 3 3]\<rparr>"]
  by simp

text \<open>
  Claim C7 as stated fails: \<^verbatim>\<open>performBulkSync\<close> reads its four arguments and nothing else,
  so no signal reaches a running job. A run over three wallets in batches of two attempts
  all three, and no run of any input returns with fewer outcomes than wallets.
\<close>

theorem no_cancellation_counterexample:
  "performBulkSync 3 flaky_sync ''sync_1'' [''w0'', ''w3'', ''w5''] 100 2 =
     Some \<lparr>successCount = 2, failedCount = 1,
           events = [BatchStarted [''w0'', ''w3''], Paused 2000, Progress 2 3,
                     BatchStarted [''w5''], Progress 3 3]\<rparr> \<and>
   \<not> (\<exists>fuel sync syncId walletAddresses transactionsPerWallet batchSize run.
         performBulkSync fuel sync syncId walletAddresses transactionsPerWallet batchSize = Some run \<and>
         successCount run + failedCount run < length walletAddresses)"
proof -
  have "successCount run + failedCount run = length walletAddresses"
    if "performBulkSync fuel sync syncId walletAddresses transactionsPerWallet batchSize = Some run"
    for fuel sync syncId walletAddresses transactionsPerWallet batchSize run
    using that performBulkSync_complete [of fuel sync syncId walletAddresses transactionsPerWallet batchSize run]
    by simp
  then have "\<not> (\<exists>fuel sync syncId walletAddresses transactionsPerWallet batchSize run.
         performBulkSync fuel sync syncId walletAddresses transactionsPerWallet batchSize = Some run \<and>
         successCount run + failedCount run < length walletAddresses)"
    by fastforce
  then show ?thesis using three_wallets_run by blast
qed

subsection \<open>The message handler\<close>

lemma str_includes_append: "str_includes b sub \<Longrightarrow> str_includes (a @ b) sub"
  by (induction a) auto

lemma supported_listed: "t \<in> set handled_types \<Longrightarrow> str_includes supported_types t"
  by (auto simp: handled_types_def supported_types_def)

lemma unknown_message_lists:
  assumes "t \<in> set handled_types"
  shows "str_includes (''Unknown message type: '' @ shown @ ''. Supported types: '' @ supported_types) t"
proof -
  have "str_includes ((''Unknown message type: '' @ shown @ ''. Supported types: '') @ supported_types) t"
    using assms by (intro str_includes_append supported_listed)
  then show ?thesis by simp
qed

lemma not_handled:
  "type \<notin> (\<lambda>t. Some (JStr t)) ` set handled_types \<Longrightarrow>
   type \<noteq> Some (JStr ''ping'') \<and> type \<noteq> Some (JStr ''subscribe'') \<and>
   type \<noteq> Some (JStr ''request_activity'') \<and> type \<noteq> Some (JStr ''get_recent_transactions'') \<and>
   type \<noteq> Some (JStr ''get_status'') \<and> type \<noteq> Some (JStr ''start_monitoring'') \<and>
   type \<noteq> Some (JStr ''stop_monitoring'')"
  by (auto simp: handled_types_def)

lemma onMessage_ping:
  assumes "sendThrows ws = None" "JSON_parse env message = Some data"
    "get_property data ''type'' = Inr (Some (JStr ''ping''))"
  shows "onMessage env ws message s =
           (Returned,
            s\<lparr>sent := sent s @ [(sock_id ws, JObj [(''type'', JStr ''pong''),
                                                    (''timestamp'', JStr (toISOString env))])],
              log := log s @ [MessageReceived data]\<rparr>)"
  using assms
  by (simp add: onMessage_def catch_with_def completed_def send_def logged_def Let_def)

lemma onMessage_unknown:
  assumes "sendThrows ws = None" "JSON_parse env message = Some data"
    "get_property data ''type'' = Inr type"
    "type \<notin> (\<lambda>t. Some (JStr t)) ` set handled_types"
    "String_of (numberToString env) type = Inr shown"
  shows "onMessage env ws message s =
           (Returned,
            s\<lparr>sent := sent s @
                  [(sock_id ws,
                    error_reply env (''Unknown message type: '' @ shown @
                                     ''. Supported types: '' @ supported_types))],
              log := log s @ [MessageReceived data, UnknownMessageType type]\<rparr>)"
  using assms(1-3,5) not_handled [OF assms(4)]
  by (simp add: onMessage_def catch_with_def completed_def send_def logged_def Let_def)

lemma onMessage_unprintable:
  assumes "sendThrows ws = None" "JSON_parse env message = Some data"
    "get_property data ''type'' = Inr type"
    "type \<notin> (\<lambda>t. Some (JStr t)) ` set handled_types"
    "String_of (numberToString env) type = Inl err"
  shows "onMessage env ws message s =
           (Returned,
            s\<lparr>sent := sent s @
                  [(sock_id ws, error_reply env ''Invalid message format. Please send valid JSON.'')],
              log := log s @ [MessageReceived data, UnknownMessageType type, MessageError err]\<rparr>)"
  using assms(1-3,5) not_handled [OF assms(4)]
  by (simp add: onMessage_def catch_with_def completed_def send_def logged_def Let_def)

lemma onMessage_unparseable:
  assumes "sendThrows ws = None" "JSON_parse env message = None"
  shows "onMessage env ws message s =
           (Returned,
            s\<lparr>sent := sent s @
                  [(sock_id ws, error_reply env ''Invalid message format. Please send valid JSON.'')],
              log := log s @ [MessageError (Error (Some ''Unexpected token in JSON''))]\<rparr>)"
  using assms
  by (simp add: onMessage_def catch_with_def completed_def send_def logged_def Let_def)

lemma onMessage_null:
  assumes "sendThrows ws = None" "JSON_parse env message = Some data"
    "get_property data ''type'' = Inl err"
  shows "onMessage env ws message s =
           (Returned,
            s\<lparr>sent := sent s @
                  [(sock_id ws, error_reply env ''Invalid message format. Please send valid JSON.'')],
              log := log s @ [MessageReceived data, MessageError err]\<rparr>)"
  using assms
  by (simp add: onMessage_def catch_with_def completed_def send_def logged_def Let_def)

text \<open>
  Claim C8, as the code has it. On a connection whose \<^verbatim>\<open>send\<close> does not throw: a message
  whose \<^verbatim>\<open>type\<close> is \<^verbatim>\<open>ping\<close> gets the reply \<^verbatim>\<open>{type: pong, timestamp}\<close>. A message whose
  \<^verbatim>\<open>type\<close> is none of the seven labels (or missing) gets an \<^verbatim>\<open>error\<close> reply whose text
  names each of the seven, provided the type can be converted to a string, as every string
  and a missing type can; when the conversion throws, as for an object with a property
  \<^verbatim>\<open>toString\<close>, the reply is the \<^verbatim>\<open>error\<close> reply \<^verbatim>\<open>Invalid message format\<close>. A message that
  does not parse, or parses to \<^verbatim>\<open>null\<close>, gets that reply too. In each case the handler
  returns, one reply is sent, and nothing but the messages sent and the log changes: the
  connection stays registered.
\<close>

theorem protocol_round_trip:
  assumes "sendThrows ws = None"
  shows "(JSON_parse env message = Some data \<and>
          get_property data ''type'' = Inr (Some (JStr ''ping'')) \<longrightarrow>
            onMessage env ws message s =
              (Returned,
               s\<lparr>sent := sent s @ [(sock_id ws, JObj [(''type'', JStr ''pong''),
                                                       (''timestamp'', JStr (toISOString env))])],
                 log := log s @ [MessageReceived data]\<rparr>)) \<and>
         (JSON_parse env message = Some data \<and> get_property data ''type'' = Inr type \<and>
          type \<notin> (\<lambda>t. Some (JStr t)) ` set handled_types \<and>
          String_of (numberToString env) type = Inr shown \<longrightarrow>
            onMessage env ws message s =
              (Returned,
               s\<lparr>sent := sent s @
                     [(sock_id ws,
                       error_reply env (''Unknown message type: '' @ shown @
                                        ''. Supported types: '' @ supported_types))],
                 log := log s @ [MessageReceived data, UnknownMessageType type]\<rparr>) \<and>
            (\<forall>t \<in> set handled_types.
               str_includes (''Unknown message type: '' @ shown @
                             ''. Supported types: '' @ supported_types) t)) \<and>
         String_of (numberToString env) (Some (JStr name)) = Inr name \<and>
         String_of (numberToString env) None = Inr ''undefined'' \<and>
         (JSON_parse env message = Some data \<and> get_property data ''type'' = Inr type \<and>
          type \<notin> (\<lambda>t. Some (JStr t)) ` set handled_types \<and>
          String_of (numberToString env) type = Inl thrown \<longrightarrow>
            onMessage env ws message s =
              (Returned,
               s\<lparr>sent := sent s @
                     [(sock_id ws,
                       error_reply env ''Invalid message format. Please send valid JSON.'')],
                 log := log s @ [MessageReceived data, UnknownMessageType type,
                                 MessageError thrown]\<rparr>)) \<and>
         (JSON_parse env message = None \<or>
          (JSON_parse env message = Some data \<and> get_property data ''type'' = Inl err) \<longrightarrow>
            fst (onMessage env ws message s) = Returned \<and>
            sent (snd (onMessage env ws message s)) =
              sent s @ [(sock_id ws,
                         error_reply env ''Invalid message format. Please send valid JSON.'')] \<and>
            wsConnections (snd (onMessage env ws message s)) = wsConnections s)"
proof -
  have ping: "JSON_parse env message = Some data \<and>
          get_property data ''type'' = Inr (Some (JStr ''ping'')) \<longrightarrow>
            onMessage env ws message s =
              (Returned,
               s\<lparr>sent := sent s @ [(sock_id ws, JObj [(''type'', JStr ''pong''),
                                                       (''timestamp'', JStr (toISOString env))])],
                 log := log s @ [MessageReceived data]\<rparr>)"
    using assms onMessage_ping [of ws env message data s] by blast
  have unknown: "JSON_parse env message = Some data \<and> get_property data ''type'' = Inr type \<and>
          type \<notin> (\<lambda>t. Some (JStr t)) ` set handled_types \<and>
          String_of (numberToString env) type = Inr shown \<longrightarrow>
            onMessage env ws message s =
              (Returned,
               s\<lparr>sent := sent s @
                     [(sock_id ws,
                       error_reply env (''Unknown message type: '' @ shown @
                                        ''. Supported types: '' @ supported_types))],
                 log := log s @ [MessageReceived data, UnknownMessageType type]\<rparr>) \<and>
            (\<forall>t \<in> set handled_types.
               str_includes (''Unknown message type: '' @ shown @
                             ''. Supported types: '' @ supported_types) t)"
    using assms onMessage_unknown [of ws env message data type shown s] unknown_message_lists [of _ shown]
    by blast
  have string: "String_of (numberToString env) (Some (JStr name)) = Inr name"
    by (simp add: String_of_def)
  have missing: "String_of (numberToString env) None = Inr ''undefined''"
    by (simp add: String_of_def)
  have unprintable: "JSON_parse env message = Some data \<and> get_property data ''type'' = Inr type \<and>
          type \<notin> (\<lambda>t. Some (JStr t)) ` set handled_types \<and>
          String_of (numberToString env) type = Inl thrown \<longrightarrow>
            onMessage env ws message s =
              (Returned,
               s\<lparr>sent := sent s @
                     [(sock_id ws,
                       error_reply env ''Invalid message format. Please send valid JSON.'')],
                 log := log s @ [MessageReceived data, UnknownMessageType type,
                                 MessageError thrown]\<rparr>)"
    using assms onMessage_unprintable [of ws env message data type thrown s] by blast
  have malformed: "JSON_parse env message = None \<or>
          (JSON_parse env message = Some data \<and> get_property data ''type'' = Inl err) \<longrightarrow>
            fst (onMessage env ws message s) = Returned \<and>
            sent (snd (onMessage env ws message s)) =
              sent s @ [(sock_id ws,
                         error_reply env ''Invalid message format. Please send valid JSON.'')] \<and>
            wsConnections (snd (onMessage env ws message s)) = wsConnections s"
  proof
    assume "JSON_parse env message = None \<or>
          (JSON_parse env message = Some data \<and> get_property data ''type'' = Inl err)"
    then have "onMessage env ws message s =
           (Returned,
            s\<lparr>sent := sent s @
                  [(sock_id ws, error_reply env ''Invalid message format. Please send valid JSON.'')],
              log := log s @ [MessageError (Error (Some ''Unexpected token in JSON''))]\<rparr>) \<or>
         onMessage env ws message s =
           (Returned,
            s\<lparr>sent := sent s @
                  [(sock_id ws, error_reply env ''Invalid message format. Please send valid JSON.'')],
              log := log s @ [MessageReceived data, MessageError err]\<rparr>)"
      using assms onMessage_unparseable [of ws env message s] onMessage_null [of ws env message data err s]
      by blast
    then show "fst (onMessage env ws message s) = Returned \<and>
            sent (snd (onMessage env ws message s)) =
              sent s @ [(sock_id ws,
                         error_reply env ''Invalid message format. Please send valid JSON.'')] \<and>
            wsConnections (snd (onMessage env ws message s)) = wsConnections s"
      by auto
  qed
  show ?thesis by (intro conjI ping unknown string missing unprintable malformed)
qed

theorem protocol_round_trip_witness:
  \<open>sendThrows (client 1) = None \<and>
   JSON_parse protocol_env ''{"type":"ping"}'' = Some (JObj [(''type'', JStr ''ping'')]) \<and>
   sent (snd (onMessage protocol_env (client 1) ''{"type":"ping"}'' (server_with [client 1])))
     = [(1, JObj [(''type'', JStr ''pong''), (''timestamp'', JStr ''2025-01-01T00:00:00.000Z'')])] \<and>
   JSON_parse protocol_env ''{"type":"bogus"}'' = Some (JObj [(''type'', JStr ''bogus'')]) \<and>
   sent (snd (onMessage protocol_env (client 1) ''{"type":"bogus"}'' (server_with [client 1])))
     = [(1, JObj [(''type'', JStr ''error''),
                  (''message'', JStr (''Unknown message type: bogus. Supported types: '' @
                     ''ping, subscribe, request_activity, get_recent_transactions, '' @
                     ''get_status, start_monitoring, stop_monitoring'')),
                  (''timestamp'', JStr ''2025-01-01T00:00:00.000Z'')])] \<and>
   JSON_parse protocol_env ''{"type":{"toString":1}}''
     = Some (JObj [(''type'', JObj [(''toString'', JNum 1)])]) \<and>
   String_of (numberToString protocol_env) (Some (JObj [(''toString'', JNum 1)]))
     = Inl (Error (Some ''Cannot convert object to primitive value'')) \<and>
   sent (snd (onMessage protocol_env (client 1) ''{"type":{"toString":1}}''
                (server_with [client 1])))
     = [(1, JObj [(''type'', JStr ''error''),
                  (''message'', JStr ''Invalid message format. Please send valid JSON.''),
                  (''timestamp'', JStr ''2025-01-01T00:00:00.000Z'')])] \<and>
   JSON_parse protocol_env ''{"type":'' = None \<and>
   fst (onMessage protocol_env (client 1) ''{"type":'' (server_with [client 1])) = Returned \<and>
   sent (snd (onMessage protocol_env (client 1) ''{"type":'' (server_with [client 1])))
     = [(1, JObj [(''type'', JStr ''error''),
                  (''message'', JStr ''Invalid message format. Please send valid JSON.''),
                  (''timestamp'', JStr ''2025-01-01T00:00:00.000Z'')])] \<and>
   wsConnections (snd (onMessage protocol_env (client 1) ''{"type":'' (server_with [client 1])))
     = [client 1]\<close>
proof -
  let ?s = "server_with [client 1]"
  let ?thrown = "Error (Some ''Cannot convert object to primitive value'')"
  have h: "sendThrows (client 1) = None" by (simp add: client_def)
  have p1: \<open>JSON_parse protocol_env ''{"type":"ping"}'' = Some (JObj [(''type'', JStr ''ping'')])\<close>
    by (simp add: protocol_env_def)
  have p2: \<open>JSON_parse protocol_env ''{"type":"bogus"}'' = Some (JObj [(''type'', JStr ''bogus'')])\<close>
    by (simp add: protocol_env_def)
  have p3: \<open>JSON_parse protocol_env ''{"type":'' = None\<close>
    by (simp add: protocol_env_def)
  have p4: \<open>JSON_parse protocol_env ''{"type":{"toString":1}}''
     = Some (JObj [(''type'', JObj [(''toString'', JNum 1)])])\<close>
    by (simp add: protocol_env_def)
  have u2: "Some (JStr ''bogus'') \<notin> (\<lambda>t. Some (JStr t)) ` set handled_types"
    by (simp add: handled_types_def)
  have u4: "Some (JObj [(''toString'', JNum 1)]) \<notin> (\<lambda>t. Some (JStr t)) ` set handled_types"
    by (simp add: handled_types_def)
  have c2: "String_of (numberToString protocol_env) (Some (JStr ''bogus'')) = Inr ''bogus''"
    by (simp add: String_of_def)
  have c4: "String_of (numberToString protocol_env) (Some (JObj [(''toString'', JNum 1)])) = Inl ?thrown"
    by (simp add: String_of_def)
  have e: "toISOString protocol_env = ''2025-01-01T00:00:00.000Z''"
    by (simp add: protocol_env_def env_with_def)
  have g1: "get_property (JObj [(''type'', JStr ''ping'')]) ''type'' = Inr (Some (JStr ''ping''))"
    and g2: "get_property (JObj [(''type'', JStr ''bogus'')]) ''type'' = Inr (Some (JStr ''bogus''))"
    and g4: "get_property (JObj [(''type'', JObj [(''toString'', JNum 1)])]) ''type''
               = Inr (Some (JObj [(''toString'', JNum 1)]))"
    by simp_all
  note t1 = protocol_round_trip [OF h, where env = protocol_env
      and message = \<open>''{"type":"ping"}''\<close> and data = "JObj [(''type'', JStr ''ping'')]"
      and type = "Some (JStr ''ping'')" and shown = "''ping''" and thrown = ?thrown
      and err = "Error None" and name = "''ping''" and s = ?s]
  note t2 = protocol_round_trip [OF h, where env = protocol_env
      and message = \<open>''{"type":"bogus"}''\<close> and data = "JObj [(''type'', JStr ''bogus'')]"
      and type = "Some (JStr ''bogus'')" and shown = "''bogus''" and thrown = ?thrown
      and err = "Error None" and name = "''bogus''" and s = ?s]
  note t3 = protocol_round_trip [OF h, where env = protocol_env
      and message = \<open>''{"type":''\<close> and data = JNull and type = None and shown = "''undefined''"
      and thrown = ?thrown and err = "Error None" and name = "''x''" and s = ?s]
  note t4 = protocol_round_trip [OF h, where env = protocol_env
      and message = \<open>''{"type":{"toString":1}}''\<close>
      and data = "JObj [(''type'', JObj [(''toString'', JNum 1)])]"
      and type = "Some (JObj [(''toString'', JNum 1)])" and shown = "''x''" and thrown = ?thrown
      and err = "Error None" and name = "''x''" and s = ?s]
  note r1 = mp [OF t1 [THEN conjunct1] conjI [OF p1 g1]]
  note r2 = mp [OF t2 [THEN conjunct2, THEN conjunct1] conjI [OF p2 conjI [OF g2 conjI [OF u2 c2]]],
      THEN conjunct1]
  note r4 = mp [OF t4 [THEN conjunct2, THEN conjunct2, THEN conjunct2, THEN conjunct2, THEN conjunct1]
      conjI [OF p4 conjI [OF g4 conjI [OF u4 c4]]]]
  note r3 = mp [OF t3 [THEN conjunct2, THEN conjunct2, THEN conjunct2, THEN conjunct2, THEN conjunct2]
      disjI1 [OF p3]]
  have a1: \<open>sent (snd (onMessage protocol_env (client 1) ''{"type":"ping"}'' ?s))
     = [(1, JObj [(''type'', JStr ''pong''), (''timestamp'', JStr ''2025-01-01T00:00:00.000Z'')])]\<close>
    unfolding r1 by (simp add: e server_with_def client_def)
  have a2: \<open>sent (snd (onMessage protocol_env (client 1) ''{"type":"bogus"}'' ?s))
     = [(1, JObj [(''type'', JStr ''error''),
                  (''message'', JStr (''Unknown message type: bogus. Supported types: '' @
                     ''ping, subscribe, request_activity, get_recent_transactions, '' @
                     ''get_status, start_monitoring, stop_monitoring'')),
                  (''timestamp'', JStr ''2025-01-01T00:00:00.000Z'')])]\<close>
    unfolding r2 by (simp add: e server_with_def client_def error_reply_def supported_types_def)
  have a4: \<open>sent (snd (onMessage protocol_env (client 1) ''{"type":{"toString":1}}'' ?s))
     = [(1, JObj [(''type'', JStr ''error''),
                  (''message'', JStr ''Invalid message format. Please send valid JSON.''),
                  (''timestamp'', JStr ''2025-01-01T00:00:00.000Z'')])]\<close>
    unfolding r4 by (simp add: e server_with_def client_def error_reply_def)
  have a3: \<open>fst (onMessage protocol_env (client 1) ''{"type":'' ?s) = Returned \<and>
     sent (snd (onMessage protocol_env (client 1) ''{"type":'' ?s))
     = [(1, JObj [(''type'', JStr ''error''),
                  (''message'', JStr ''Invalid message format. Please send valid JSON.''),
                  (''timestamp'', JStr ''2025-01-01T00:00:00.000Z'')])] \<and>
     wsConnections (snd (onMessage protocol_env (client 1) ''{"type":'' ?s)) = [client 1]\<close>
    using r3 by (simp add: e server_with_def client_def error_reply_def)
  show ?thesis using h p1 p2 p3 p4 c4 a1 a2 a3 a4 by blast
qed

text \<open>
  Claim C8 as stated fails for the message \<^verbatim>\<open>{"type":{"toString":1}}\<close>: its type is none
  of the seven labels, the template literal of the default branch throws on it, and the reply
  is \<^verbatim>\<open>Invalid message format\<close>, which names no supported type. It fails also on a
  connection whose \<^verbatim>\<open>send\<close> throws: the \<^verbatim>\<open>send\<close> of the \<^verbatim>\<open>catch\<close> throws as well, so
  for \<^verbatim>\<open>{"type":"ping"}\<close> nothing is sent and the exception leaves the handler.
\<close>

theorem unprintable_type_counterexample:
  \<open>JSON_parse protocol_env ''{"type":{"toString":1}}''
     = Some (JObj [(''type'', JObj [(''toString'', JNum 1)])]) \<and>
   Some (JObj [(''toString'', JNum 1)]) \<notin> (\<lambda>t. Some (JStr t)) ` set handled_types \<and>
   sent (snd (onMessage protocol_env (client 1) ''{"type":{"toString":1}}''
                (server_with [client 1])))
     = [(1, JObj [(''type'', JStr ''error''),
                  (''message'', JStr ''Invalid message format. Please send valid JSON.''),
                  (''timestamp'', JStr ''2025-01-01T00:00:00.000Z'')])] \<and>
   \<not> str_includes ''Invalid message format. Please send valid JSON.'' ''ping'' \<and>
   \<not> str_includes ''Invalid message format. Please send valid JSON.'' ''Supported types'' \<and>
   fst (onMessage protocol_env (broken_client 1) ''{"type":"ping"}''
          (server_with [broken_client 1])) = Uncaught (Error (Some ''write EPIPE'')) \<and>
   sent (snd (onMessage protocol_env (broken_client 1) ''{"type":"ping"}''
                (server_with [broken_client 1]))) = []\<close>
proof -
  have q: \<open>JSON_parse protocol_env ''{"type":"ping"}'' = Some (JObj [(''type'', JStr ''ping'')])\<close>
    by (simp add: protocol_env_def)
  have b: \<open>fst (onMessage protocol_env (broken_client 1) ''{"type":"ping"}''
          (server_with [broken_client 1])) = Uncaught (Error (Some ''write EPIPE'')) \<and>
   sent (snd (onMessage protocol_env (broken_client 1) ''{"type":"ping"}''
                (server_with [broken_client 1]))) = []\<close>
    by (simp add: onMessage_def q catch_with_def completed_def send_def logged_def Let_def
        broken_client_def server_with_def)
  have p: \<open>JSON_parse protocol_env ''{"type":{"toString":1}}''
     = Some (JObj [(''type'', JObj [(''toString'', JNum 1)])])\<close>
    by (simp add: protocol_env_def)
  have u: "Some (JObj [(''toString'', JNum 1)]) \<notin> (\<lambda>t. Some (JStr t)) ` set handled_types"
    by (simp add: handled_types_def)
  have r: \<open>onMessage protocol_env (client 1) ''{"type":{"toString":1}}'' (server_with [client 1]) =
           (Returned,
            (server_with [client 1])
            \<lparr>sent := sent (server_with [client 1]) @
                  [(sock_id (client 1),
                    error_reply protocol_env ''Invalid message format. Please send valid JSON.'')],
              log := log (server_with [client 1]) @
                  [MessageReceived (JObj [(''type'', JObj [(''toString'', JNum 1)])]),
                   UnknownMessageType (Some (JObj [(''toString'', JNum 1)])),
                   MessageError (Error (Some ''Cannot convert object to primitive value''))]\<rparr>)\<close>
    by (rule onMessage_unprintable [OF _ p _ u]) (simp_all add: client_def String_of_def)
  have s: \<open>sent (snd (onMessage protocol_env (client 1) ''{"type":{"toString":1}}''
                (server_with [client 1])))
     = [(1, JObj [(''type'', JStr ''error''),
                  (''message'', JStr ''Invalid message format. Please send valid JSON.''),
                  (''timestamp'', JStr ''2025-01-01T00:00:00.000Z'')])]\<close>
    unfolding r by (simp add: server_with_def client_def error_reply_def protocol_env_def env_with_def)
  have n: "\<not> str_includes ''Invalid message format. Please send valid JSON.'' ''ping'' \<and>
   \<not> str_includes ''Invalid message format. Please send valid JSON.'' ''Supported types''"
    by simp
  show ?thesis using p u s n b by blast
qed

end
